theory Spec2Isabelle
  imports Complex_Main
begin

section \<open>The BART engine of pymc3/bart/bart.py\<close>

text \<open>
  The model follows \<^verbatim>\<open>src/pymc3/bart/bart.py\<close>. Exceptions are values of
  \<open>error\<close>; a method that mutates \<open>self\<close>, a tree or NumPy's random generator takes
  them and returns them updated.
\<close>

datatype error =
    TypeError | BARTParamsError | ValueError | IndexError | KeyError
  | AttributeError | ZeroDivisionError | NotImplementedError

subsection \<open>Floating-point values\<close>

text \<open>
  Entries of the design matrix \<open>X\<close> are only compared, never computed with. They are
  \<open>'a option\<close> for a linear order \<open>'a\<close> of the numbers a float64 can hold (the reals,
  with the infinities if wanted); \<open>None\<close> is nan. Every comparison with nan is false,
  and \<open>!=\<close> on values that passed \<open>~np.isnan\<close> is inequality in \<open>'a\<close>.

  Values the code computes with (the response \<open>Y\<close>, residuals, leaf values, the
  float arguments of the constructors) are \<open>float64 = real option\<close>: \<open>Some r\<close> is the
  real number \<open>r\<close>, with exact arithmetic in place of rounding, and \<open>None\<close> is a
  float that is no real number (nan, or the infinity NumPy returns with a
  RuntimeWarning for a division by zero). Arithmetic on \<open>None\<close> gives \<open>None\<close>. The
  operations \<open>fadd\<close>, \<open>fsub\<close>, \<open>fmul\<close>, \<open>fdiv\<close> and \<open>fsqrt\<close> are the exact ones.
\<close>

type_synonym float64 = "real option"

definition lift2 :: "(real \<Rightarrow> real \<Rightarrow> real) \<Rightarrow> float64 \<Rightarrow> float64 \<Rightarrow> float64" where
  "lift2 f a b = (case a of None \<Rightarrow> None | Some x \<Rightarrow> (case b of None \<Rightarrow> None | Some y \<Rightarrow> Some (f x y)))"

definition fadd :: "float64 \<Rightarrow> float64 \<Rightarrow> float64" where
  "fadd = lift2 (+)"

definition fsub :: "float64 \<Rightarrow> float64 \<Rightarrow> float64" where
  "fsub = lift2 (-)"

definition fmul :: "float64 \<Rightarrow> float64 \<Rightarrow> float64" where
  "fmul = lift2 (*)"

definition fdiv :: "float64 \<Rightarrow> float64 \<Rightarrow> float64" where
  \<comment> \<open>NumPy's division: a zero divisor gives nan or an infinity, no exception.\<close>
  "fdiv a b = (case a of None \<Rightarrow> None | Some x \<Rightarrow>
     (case b of None \<Rightarrow> None | Some y \<Rightarrow> if y = 0 then None else Some (x / y)))"

definition fsqrt :: "float64 \<Rightarrow> float64" where
  \<comment> \<open>\<open>np.power(v, 0.5)\<close>: nan below zero.\<close>
  "fsqrt a = (case a of None \<Rightarrow> None | Some x \<Rightarrow> if x < 0 then None else Some (sqrt x))"

text \<open>
  Where a claim is about the bits of a result, the operations round: IEEE 754
  binary64, round to nearest, ties to even. \<open>binade n x 0\<close> is the exponent \<open>e\<close> with
  \<open>2^e \<le> x < 2^(e+1)\<close> when it lies within \<open>n\<close> of zero, and \<open>\<plusminus> n\<close> beyond, which
  is all \<open>round_float64\<close> needs: below \<open>-1022\<close> the spacing is that of the subnormals,
  and a result of magnitude \<open>2^1024\<close> or more is an infinity.
\<close>

definition pow2 :: "int \<Rightarrow> real" where
  "pow2 e = (if 0 \<le> e then 2 ^ nat e else 1 / 2 ^ nat (- e))"

definition round_half_even :: "real \<Rightarrow> int" where
  "round_half_even x =
     (let f = \<lfloor>x\<rfloor>; d = x - real_of_int f
      in if d < 1 / 2 then f else if 1 / 2 < d then f + 1 else if even f then f else f + 1)"

fun binade :: "nat \<Rightarrow> real \<Rightarrow> int \<Rightarrow> int" where
  "binade 0 x e = e"
| "binade (Suc n) x e =
     (if x < 1 then binade n (x * 2) (e - 1)
      else if 2 \<le> x then binade n (x / 2) (e + 1)
      else e)"

definition round_float64 :: "real \<Rightarrow> float64" where
  "round_float64 x =
     (if x = 0 then Some 0
      else
        (let e = max (binade 1100 \<bar>x\<bar> 0) (- 1022);
             ulp = pow2 (e - 52);
             y = real_of_int (round_half_even (x / ulp)) * ulp
         in if 2 ^ 1024 \<le> \<bar>y\<bar> then None else Some y))"

definition radd :: "float64 \<Rightarrow> float64 \<Rightarrow> float64" where
  "radd a b = (case a of None \<Rightarrow> None | Some x \<Rightarrow>
     (case b of None \<Rightarrow> None | Some y \<Rightarrow> round_float64 (x + y)))"

definition rsub :: "float64 \<Rightarrow> float64 \<Rightarrow> float64" where
  "rsub a b = (case a of None \<Rightarrow> None | Some x \<Rightarrow>
     (case b of None \<Rightarrow> None | Some y \<Rightarrow> round_float64 (x - y)))"

definition rmul :: "float64 \<Rightarrow> float64 \<Rightarrow> float64" where
  "rmul a b = (case a of None \<Rightarrow> None | Some x \<Rightarrow>
     (case b of None \<Rightarrow> None | Some y \<Rightarrow> round_float64 (x * y)))"

definition rdiv :: "float64 \<Rightarrow> float64 \<Rightarrow> float64" where
  "rdiv a b = (case a of None \<Rightarrow> None | Some x \<Rightarrow>
     (case b of None \<Rightarrow> None | Some y \<Rightarrow> if y = 0 then None else round_float64 (x / y)))"

definition np_sum :: "float64 list \<Rightarrow> float64" where
  "np_sum xs = fold (\<lambda>x acc. fadd acc x) xs (Some 0)"

definition np_mean :: "float64 list \<Rightarrow> float64" where
  "np_mean xs = fdiv (np_sum xs) (Some (real (length xs)))"

definition np_var :: "float64 list \<Rightarrow> float64" where
  \<comment> \<open>\<open>ndarray.var()\<close>: the mean of the squared deviations from the mean.\<close>
  "np_var xs = np_mean (map (\<lambda>x. let d = fsub x (np_mean xs) in fmul d d) xs)"

definition np_std :: "float64 list \<Rightarrow> float64" where
  "np_std xs = fsqrt (np_var xs)"

subsection \<open>The design matrix and indexing\<close>

text \<open>
  A two-dimensional ndarray: its shape and its entries. \<open>X[idx, j]\<close> with an integer
  array \<open>idx\<close> of row indices raises IndexError when an index is out of bounds. Row
  indices are naturals: the engine's row sets are subsets of \<open>range(N)\<close>.
\<close>

record 'a ndarray2 =
  shape0 :: nat
  shape1 :: nat
  item :: "nat \<Rightarrow> nat \<Rightarrow> 'a option"

definition take_column :: "'a ndarray2 \<Rightarrow> nat list \<Rightarrow> nat \<Rightarrow> error + 'a option list" where
  "take_column X idx j =
     (if list_all (\<lambda>i. i < shape0 X) idx \<and> j < shape1 X
      then Inr (map (\<lambda>i. item X i j) idx) else Inl IndexError)"

fun drop_nan :: "'a option list \<Rightarrow> 'a list" where
  \<comment> \<open>\<open>x_j[~np.isnan(x_j)]\<close>\<close>
  "drop_nan [] = []"
| "drop_nan (None # xs) = drop_nan xs"
| "drop_nan (Some x # xs) = x # drop_nan xs"

fun py_index :: "'b list \<Rightarrow> int \<Rightarrow> error + 'b" where
  \<comment> \<open>\<open>xs[i]\<close> on a list or a one-dimensional array: a negative index counts from the end.\<close>
  "py_index xs i =
     (let n = int (length xs); k = (if i < 0 then n + i else i)
      in if 0 \<le> k \<and> k < n then Inr (xs ! nat k) else Inl IndexError)"

fun first_index :: "'b list \<Rightarrow> 'b \<Rightarrow> nat" where
  "first_index [] v = 0"
| "first_index (x # xs) v = (if x = v then 0 else Suc (first_index xs v))"

definition np_unique :: "'a::linorder list \<Rightarrow> 'a list \<times> nat list" where
  \<comment> \<open>\<open>np.unique(x, return_index=True)\<close>: the sorted distinct values, and for each the
      index of its first occurrence in \<open>x\<close>.\<close>
  "np_unique xs = (let values = sort (remdups xs) in (values, map (first_index xs) values))"

definition fle :: "'a::linorder option \<Rightarrow> 'a option \<Rightarrow> bool" where
  \<comment> \<open>\<open><=\<close> on floats: false as soon as one side is nan.\<close>
  "fle x y = (case x of None \<Rightarrow> False | Some a \<Rightarrow> (case y of None \<Rightarrow> False | Some b \<Rightarrow> a \<le> b))"

definition select :: "bool list \<Rightarrow> 'b list \<Rightarrow> 'b list" where
  \<comment> \<open>\<open>xs[np.nonzero(bs)]\<close> for a boolean array \<open>bs\<close> as long as \<open>xs\<close>\<close>
  "select bs xs = map snd (filter fst (zip bs xs))"

definition np_subtract :: "float64 list \<Rightarrow> float64 list \<Rightarrow> error + float64 list" where
  \<comment> \<open>\<open>a - b\<close> on one-dimensional arrays: elementwise, an array of length one is
      broadcast, any other pair of different lengths raises ValueError.\<close>
  "np_subtract a b =
     (if length a = length b then Inr (map (\<lambda>(x, y). fsub x y) (zip a b))
      else if length b = 1 then Inr (map (\<lambda>x. fsub x (hd b)) a)
      else if length a = 1 then Inr (map (\<lambda>y. fsub (hd a) y) b)
      else Inl ValueError)"

definition np_take :: "'b list \<Rightarrow> nat list \<Rightarrow> error + 'b list" where
  \<comment> \<open>\<open>xs[idx]\<close> with an integer array \<open>idx\<close>\<close>
  "np_take xs idx =
     (if list_all (\<lambda>i. i < length xs) idx then Inr (map (\<lambda>i. xs ! i) idx) else Inl IndexError)"

definition py_int :: "real \<Rightarrow> int" where
  \<comment> \<open>\<open>int(x)\<close> on a float: truncation towards zero.\<close>
  "py_int x = (if 0 \<le> x then \<lfloor>x\<rfloor> else \<lceil>x\<rceil>)"

subsection \<open>Nodes and trees\<close>

text \<open>
  The classes \<open>Tree\<close>, \<open>SplitNode\<close> and \<open>LeafNode\<close> of \<^verbatim>\<open>pymc3.bart.tree\<close> are imported
  by the source and not part of it. The nodes carry the fields the source passes to
  their constructors and reads back.
\<close>

datatype 'a node =
    SplitNode (node_index: nat) (idx_split_variable: nat) (split_value: "'a option")
      (idx_data_points: "nat list")
  | LeafNode (node_index: nat) (leaf_value: float64) (idx_data_points: "nat list")

type_synonym 'a tree = "nat \<Rightarrow> 'a node option"

definition get_node :: "'a tree \<Rightarrow> nat \<Rightarrow> error + 'a node" where
  \<comment> \<open>Modelled from the spec: \<open>Tree.get_node\<close> is missing from the source. A tree is "a
      collection of Nodes keyed by index"; a missing key is taken to raise KeyError.\<close>
  "get_node t i = (case t i of None \<Rightarrow> Inl KeyError | Some n \<Rightarrow> Inr n)"

definition get_idx_left_child :: "'a node \<Rightarrow> nat" where
  \<comment> \<open>Modelled from the spec: the node classes are missing from the source; "left child =
      2 index + 1".\<close>
  "get_idx_left_child n = 2 * node_index n + 1"

definition get_idx_right_child :: "'a node \<Rightarrow> nat" where
  \<comment> \<open>Modelled from the spec: the node classes are missing from the source; "right child =
      2 index + 2".\<close>
  "get_idx_right_child n = 2 * node_index n + 2"

definition init_tree :: "float64 \<Rightarrow> nat list \<Rightarrow> 'a tree" where
  \<comment> \<open>Modelled from the spec: \<open>Tree.init_tree\<close> is missing from the source; the "initial
      state is a single Leaf at index 0" with the given value and rows.\<close>
  "init_tree leaf_node_value idx = Map.empty(0 \<mapsto> LeafNode 0 leaf_node_value idx)"

definition tree_grow_tree :: "'a tree \<Rightarrow> nat \<Rightarrow> 'a node \<Rightarrow> 'a node \<Rightarrow> 'a node \<Rightarrow> 'a tree" where
  \<comment> \<open>Modelled from the spec: \<open>Tree.grow_tree\<close> is missing from the source. It replaces
      "the leaf node at leaf_index with a SplitNode plus two new LeafNodes", each stored
      under its own index.\<close>
  "tree_grow_tree t index_leaf_node new_split_node new_left_node new_right_node =
     t(index_leaf_node \<mapsto> new_split_node,
       node_index new_left_node \<mapsto> new_left_node,
       node_index new_right_node \<mapsto> new_right_node)"

subsection \<open>NumPy's random generator and the two cached samplers\<close>

text \<open>
  \<open>np.random\<close> is a source of numbers outside the program: two unknown infinite
  sequences, read from a position that each bulk draw advances. A negative size
  raises ValueError.
\<close>

record rng =
  normal_src :: "nat \<Rightarrow> real"
  normal_pos :: nat
  uniform_src :: "nat \<Rightarrow> real"
  uniform_pos :: nat

definition np_random_normal :: "rng \<Rightarrow> int \<Rightarrow> (error + real list) \<times> rng" where
  "np_random_normal r n =
     (if n < 0 then (Inl ValueError, r)
      else (Inr (map (\<lambda>k. normal_src r (normal_pos r + k)) [0..<nat n]),
            r\<lparr>normal_pos := normal_pos r + nat n\<rparr>))"

definition np_random_random :: "rng \<Rightarrow> int \<Rightarrow> (error + real list) \<times> rng" where
  "np_random_random r n =
     (if n < 0 then (Inl ValueError, r)
      else (Inr (map (\<lambda>k. uniform_src r (uniform_pos r + k)) [0..<nat n]),
            r\<lparr>uniform_pos := uniform_pos r + nat n\<rparr>))"

record sampler =
  cache_size :: int
  cache :: "real list"

definition new_sampler :: "int \<Rightarrow> sampler" where
  "new_sampler n = \<lparr>cache_size = n, cache = []\<rparr>"

definition py_pop :: "'b list \<Rightarrow> error + 'b \<times> 'b list" where
  \<comment> \<open>\<open>list.pop()\<close>: the last element; IndexError on the empty list.\<close>
  "py_pop xs = (if xs = [] then Inl IndexError else Inr (last xs, butlast xs))"

definition normal_refresh_cache :: "sampler \<Rightarrow> rng \<Rightarrow> (error + unit) \<times> sampler \<times> rng" where
  "normal_refresh_cache s r =
     (case np_random_normal r (cache_size s) of
        (Inl e, r') \<Rightarrow> (Inl e, s, r')
      | (Inr batch, r') \<Rightarrow> (Inr (), s\<lparr>cache := batch\<rparr>, r'))"

definition normal_sample :: "sampler \<Rightarrow> rng \<Rightarrow> (error + real) \<times> sampler \<times> rng" where
  "normal_sample s r =
     (case (if cache s = [] then normal_refresh_cache s r else (Inr (), s, r)) of
        (Inl e, s', r') \<Rightarrow> (Inl e, s', r')
      | (Inr u, s', r') \<Rightarrow>
          (case py_pop (cache s') of
             Inl e \<Rightarrow> (Inl e, s', r')
           | Inr (z, rest) \<Rightarrow> (Inr z, s'\<lparr>cache := rest\<rparr>, r')))"

definition uniform_refresh_cache :: "sampler \<Rightarrow> rng \<Rightarrow> (error + unit) \<times> sampler \<times> rng" where
  "uniform_refresh_cache s r =
     (case np_random_random r (cache_size s) of
        (Inl e, r') \<Rightarrow> (Inl e, s, r')
      | (Inr batch, r') \<Rightarrow> (Inr (), s\<lparr>cache := batch\<rparr>, r'))"

definition uniform_sample :: "sampler \<Rightarrow> rng \<Rightarrow> int \<Rightarrow> int \<Rightarrow> (error + int) \<times> sampler \<times> rng" where
  \<comment> \<open>\<open>DiscreteUniformDistributionSampler.sample(lower_limit, upper_limit)\<close>\<close>
  "uniform_sample s r lower_limit upper_limit =
     (case (if cache s = [] then uniform_refresh_cache s r else (Inr (), s, r)) of
        (Inl e, s', r') \<Rightarrow> (Inl e, s', r')
      | (Inr u, s', r') \<Rightarrow>
          (case py_pop (cache s') of
             Inl e \<Rightarrow> (Inl e, s', r')
           | Inr (u, rest) \<Rightarrow>
               (Inr (py_int (real_of_int lower_limit + real_of_int (upper_limit - lower_limit) * u)),
                s'\<lparr>cache := rest\<rparr>, r')))"

subsection \<open>The engine: class BaseBART\<close>

text \<open>
  The attributes of \<open>self\<close>, under the names of the source (\<open>X\<close>, \<open>Y\<close> and \<open>m\<close> are
  \<open>self_X\<close>, \<open>self_Y\<close> and \<open>self_m\<close>). \<open>transform\<close> is \<open>None\<close> or a string. The
  response holds real numbers.
\<close>

record 'a BaseBART =
  self_X :: "'a ndarray2"
  num_observations :: nat
  number_variates :: nat
  self_Y :: "real list"
  transform :: "string option"
  Y_min :: real
  Y_max :: real
  Y_transf_max_Y_transf_min_half_diff :: real
  Y_transformed :: "float64 list"
  overestimated_sigma :: float64
  self_m :: int
  prior_alpha :: float64
  prior_beta :: float64
  tree_sampler :: string
  normal_distribution_sampler :: sampler
  discrete_uniform_distribution_sampler :: sampler
  sum_trees_output :: "float64 list"
  trees :: "'a tree list"

definition truthy :: "string option \<Rightarrow> bool" where
  \<comment> \<open>\<open>if self.transform:\<close> is false for \<open>None\<close> and for the empty string.\<close>
  "truthy t = (case t of None \<Rightarrow> False | Some s \<Rightarrow> s \<noteq> [])"

definition transform_Y :: "('a, 'z) BaseBART_scheme \<Rightarrow> float64 list \<Rightarrow> float64 list" where
  "transform_Y self ys =
     (if truthy (transform self)
      then map (\<lambda>y. fsub (fmul (fdiv (fsub y (Some (Y_min self))) (Some (Y_max self - Y_min self)))
                              (Some (Y_transf_max_Y_transf_min_half_diff self * 2)))
                        (Some (Y_transf_max_Y_transf_min_half_diff self))) ys
      else ys)"

definition un_transform_Y :: "('a, 'z) BaseBART_scheme \<Rightarrow> float64 list \<Rightarrow> float64 list" where
  "un_transform_Y self ys =
     (if truthy (transform self)
      then map (\<lambda>y. fadd (fdiv (fmul (fadd y (Some (Y_transf_max_Y_transf_min_half_diff self)))
                                    (Some (Y_max self - Y_min self)))
                              (Some (Y_transf_max_Y_transf_min_half_diff self * 2)))
                        (Some (Y_min self))) ys
      else ys)"

text \<open>
  The same two methods with every operation rounded, in the order Python evaluates
  them.
\<close>

definition transform_Y_float64 :: "('a, 'z) BaseBART_scheme \<Rightarrow> float64 list \<Rightarrow> float64 list" where
  "transform_Y_float64 self ys =
     (if truthy (transform self)
      then map (\<lambda>y. rsub (rmul (rdiv (rsub y (Some (Y_min self)))
                                     (rsub (Some (Y_max self)) (Some (Y_min self))))
                               (rmul (Some (Y_transf_max_Y_transf_min_half_diff self)) (Some 2)))
                        (Some (Y_transf_max_Y_transf_min_half_diff self))) ys
      else ys)"

definition un_transform_Y_float64 :: "('a, 'z) BaseBART_scheme \<Rightarrow> float64 list \<Rightarrow> float64 list" where
  "un_transform_Y_float64 self ys =
     (if truthy (transform self)
      then map (\<lambda>y. radd (rdiv (rmul (radd y (Some (Y_transf_max_Y_transf_min_half_diff self)))
                                     (rsub (Some (Y_max self)) (Some (Y_min self))))
                               (rmul (Some (Y_transf_max_Y_transf_min_half_diff self)) (Some 2)))
                        (Some (Y_min self))) ys
      else ys)"

definition sample_dist_splitting_variable ::
  "('a, 'z) BaseBART_scheme \<Rightarrow> rng \<Rightarrow> int \<Rightarrow> (error + int) \<times> ('a, 'z) BaseBART_scheme \<times> rng" where
  "sample_dist_splitting_variable self r v =
     (case uniform_sample (discrete_uniform_distribution_sampler self) r 0 v of
        (res, s', r') \<Rightarrow> (res, self\<lparr>discrete_uniform_distribution_sampler := s'\<rparr>, r'))"

definition sample_dist_splitting_rule_assignment ::
  "('a, 'z) BaseBART_scheme \<Rightarrow> rng \<Rightarrow> int \<Rightarrow> (error + int) \<times> ('a, 'z) BaseBART_scheme \<times> rng" where
  "sample_dist_splitting_rule_assignment self r v =
     (case uniform_sample (discrete_uniform_distribution_sampler self) r 0 v of
        (res, s', r') \<Rightarrow> (res, self\<lparr>discrete_uniform_distribution_sampler := s'\<rparr>, r'))"

fun adjacent_differ :: "'b list \<Rightarrow> bool" where
  \<comment> \<open>the inner loop of \<open>get_available_predictors\<close>: some \<open>x_j[i - 1] != x_j[i]\<close>\<close>
  "adjacent_differ (x # y # zs) = (if x \<noteq> y then True else adjacent_differ (y # zs))"
| "adjacent_differ zs = False"

fun available_predictors_loop ::
  "('a, 'z) BaseBART_scheme \<Rightarrow> nat list \<Rightarrow> nat list \<Rightarrow> nat list \<Rightarrow> error + nat list" where
  \<comment> \<open>the outer loop, over the columns still to visit, with the list built so far\<close>
  "available_predictors_loop self idx [] possible_splitting_variables =
     Inr possible_splitting_variables"
| "available_predictors_loop self idx (j # js) possible_splitting_variables =
     (case take_column (self_X self) idx j of
        Inl e \<Rightarrow> Inl e
      | Inr x_j \<Rightarrow>
          available_predictors_loop self idx js
            (if adjacent_differ (drop_nan x_j) then possible_splitting_variables @ [j]
             else possible_splitting_variables))"

definition get_available_predictors ::
  "('a, 'z) BaseBART_scheme \<Rightarrow> nat list \<Rightarrow> error + nat list" where
  "get_available_predictors self idx_data_points_split_node =
     available_predictors_loop self idx_data_points_split_node [0..<number_variates self] []"

definition get_available_splitting_rules ::
  "('a::linorder, 'z) BaseBART_scheme \<Rightarrow> nat list \<Rightarrow> nat \<Rightarrow> error + 'a list \<times> nat list" where
  "get_available_splitting_rules self idx_data_points_split_node idx_split_var =
     (case take_column (self_X self) idx_data_points_split_node idx_split_var of
        Inl e \<Rightarrow> Inl e
      | Inr x_j \<Rightarrow>
          (case np_unique (drop_nan x_j) of
             (values, indices) \<Rightarrow> Inr (butlast values, butlast indices)))"

definition get_new_idx_data_points ::
  "('a::linorder, 'z) BaseBART_scheme \<Rightarrow> 'a node \<Rightarrow> error + nat list \<times> nat list" where
  "get_new_idx_data_points self current_split_node =
     (case current_split_node of
        LeafNode i v idx \<Rightarrow> Inl AttributeError
      | SplitNode i j sv idx \<Rightarrow>
          (case take_column (self_X self) idx j of
             Inl e \<Rightarrow> Inl e
           | Inr x_j \<Rightarrow>
               Inr (select (map (\<lambda>x. fle x sv) x_j) idx,
                    select (map (\<lambda>x. \<not> fle x sv) x_j) idx)))"

definition get_residuals ::
  "('a tree \<Rightarrow> nat \<Rightarrow> float64 list) \<Rightarrow> ('a, 'z) BaseBART_scheme \<Rightarrow> 'a tree \<Rightarrow> error + float64 list" where
  \<comment> \<open>\<open>Tree.predict_output\<close> is missing from the source: it is the parameter
      \<open>predict_output\<close>.\<close>
  "get_residuals predict_output self t =
     np_subtract (sum_trees_output self) (predict_output t (num_observations self))"

subsection \<open>Leaf values\<close>

text \<open>
  \<open>draw_leaf_value\<close> is abstract in \<open>BaseBART\<close> and overridden by \<open>BART\<close> and by
  \<open>ConjugateBART\<close>. Each version takes \<open>self\<close> and the generator and returns them with
  the drawn value or the exception.
\<close>

definition BaseBART_draw_leaf_value ::
  "('a, 'z) BaseBART_scheme \<Rightarrow> rng \<Rightarrow> 'a tree \<Rightarrow> nat list
     \<Rightarrow> (error + float64) \<times> ('a, 'z) BaseBART_scheme \<times> rng" where
  "BaseBART_draw_leaf_value self r t idx = (Inl NotImplementedError, self, r)"

definition BART_draw_leaf_value ::
  "('a tree \<Rightarrow> nat \<Rightarrow> float64 list) \<Rightarrow> ('a, 'z) BaseBART_scheme \<Rightarrow> rng \<Rightarrow> 'a tree \<Rightarrow> nat list
     \<Rightarrow> (error + float64) \<times> ('a, 'z) BaseBART_scheme \<times> rng" where
  "BART_draw_leaf_value predict_output self r t idx =
     (let current_num_observations = length idx in
      case get_residuals predict_output self t of
        Inl e \<Rightarrow> (Inl e, self, r)
      | Inr R_j \<Rightarrow>
          (case np_take R_j idx of
             Inl e \<Rightarrow> (Inl e, self, r)
           | Inr node_responses \<Rightarrow>
               (let node_average_responses =
                      fdiv (np_sum node_responses) (Some (real current_num_observations));
                    posterior_mean = node_average_responses;
                    posterior_variance = np_var node_responses
                in case normal_sample (normal_distribution_sampler self) r of
                     (Inl e, s', r') \<Rightarrow> (Inl e, self\<lparr>normal_distribution_sampler := s'\<rparr>, r')
                   | (Inr z, s', r') \<Rightarrow>
                       (Inr (fadd posterior_mean (fmul (Some z) (fsqrt posterior_variance))),
                        self\<lparr>normal_distribution_sampler := s'\<rparr>, r'))))"

record 'a ConjugateBART = "'a BaseBART" +
  prior_k :: float64
  prior_nu :: float64
  prior_q :: float64
  prior_lambda :: float64
  current_sigma :: real
  prior_mu_mu :: real
  prior_sigma_mu :: float64

text \<open>
  In \<open>ConjugateBART.draw_leaf_value\<close>, \<open>current_sigma\<close> is the Python float the
  constructor stores and the row count is a Python int: a division of the two, and a
  division by their quotient, raises ZeroDivisionError on a zero divisor. The other
  divisions have a NumPy float on one side and raise nothing.
\<close>

definition ConjugateBART_draw_leaf_value ::
  "('a tree \<Rightarrow> nat \<Rightarrow> float64 list) \<Rightarrow> ('a, 'z) ConjugateBART_scheme \<Rightarrow> rng \<Rightarrow> 'a tree \<Rightarrow> nat list
     \<Rightarrow> (error + float64) \<times> ('a, 'z) ConjugateBART_scheme \<times> rng" where
  "ConjugateBART_draw_leaf_value predict_output self r t idx =
     (let current_num_observations = length idx in
      case get_residuals predict_output self t of
        Inl e \<Rightarrow> (Inl e, self, r)
      | Inr R_j \<Rightarrow>
          (case np_take R_j idx of
             Inl e \<Rightarrow> (Inl e, self, r)
           | Inr node_responses \<Rightarrow>
               (let node_average_responses =
                      fdiv (np_sum node_responses) (Some (real current_num_observations));
                    prior_var = fmul (prior_sigma_mu self) (prior_sigma_mu self)
                in if current_num_observations = 0 then (Inl ZeroDivisionError, self, r)
                   else
                     (let likelihood_var = (current_sigma self)\<^sup>2 / real current_num_observations;
                          likelihood_mean = node_average_responses
                      in if likelihood_var = 0 then (Inl ZeroDivisionError, self, r)
                         else
                           (let posterior_variance =
                                  fdiv (Some 1)
                                    (fadd (fdiv (Some 1) prior_var) (Some (1 / likelihood_var)));
                                posterior_mean =
                                  fmul likelihood_mean
                                    (fdiv prior_var (fadd (Some likelihood_var) prior_var))
                            in case normal_sample (normal_distribution_sampler self) r of
                                 (Inl e, s', r') \<Rightarrow>
                                   (Inl e, self\<lparr>normal_distribution_sampler := s'\<rparr>, r')
                               | (Inr z, s', r') \<Rightarrow>
                                   (Inr (fadd posterior_mean
                                           (fmul (Some z)
                                              (fsqrt (fdiv posterior_variance
                                                        (Some (real_of_int (self_m self))))))),
                                    self\<lparr>normal_distribution_sampler := s'\<rparr>, r'))))))"

subsection \<open>Growing a tree\<close>

text \<open>
  \<open>BaseBART.grow_tree\<close>, in three parts: the lookup and the predictors; the choice of
  a predictor and of a splitting rule; the two children. The version of
  \<open>draw_leaf_value\<close> that \<open>self\<close> dispatches to is the parameter \<open>draw\<close>. The result is
  the returned boolean or the exception, with \<open>self\<close>, the generator and the tree as
  the call leaves them.
\<close>

definition grow_tree_children ::
  "(('a::linorder, 'z) BaseBART_scheme \<Rightarrow> rng \<Rightarrow> 'a tree \<Rightarrow> nat list
      \<Rightarrow> (error + float64) \<times> ('a, 'z) BaseBART_scheme \<times> rng)
   \<Rightarrow> ('a, 'z) BaseBART_scheme \<Rightarrow> rng \<Rightarrow> 'a tree \<Rightarrow> nat \<Rightarrow> 'a node \<Rightarrow> nat \<Rightarrow> 'a
   \<Rightarrow> (error + bool) \<times> ('a, 'z) BaseBART_scheme \<times> rng \<times> 'a tree" where
  "grow_tree_children draw self r t index_leaf_node current_node selected_predictor
       selected_splitting_rule =
     (let new_split_node = SplitNode index_leaf_node selected_predictor
            (Some selected_splitting_rule) (idx_data_points current_node)
      in case get_new_idx_data_points self new_split_node of
           Inl e \<Rightarrow> (Inl e, self, r, t)
         | Inr (left_node_idx_data_points, right_node_idx_data_points) \<Rightarrow>
             (case draw self r t left_node_idx_data_points of
                (Inl e, self1, r1) \<Rightarrow> (Inl e, self1, r1, t)
              | (Inr left_node_value, self1, r1) \<Rightarrow>
                  (case draw self1 r1 t right_node_idx_data_points of
                     (Inl e, self2, r2) \<Rightarrow> (Inl e, self2, r2, t)
                   | (Inr right_node_value, self2, r2) \<Rightarrow>
                       (Inr True, self2, r2,
                        tree_grow_tree t index_leaf_node new_split_node
                          (LeafNode (get_idx_left_child current_node) left_node_value
                             left_node_idx_data_points)
                          (LeafNode (get_idx_right_child current_node) right_node_value
                             right_node_idx_data_points)))))"

definition grow_tree_select ::
  "(('a::linorder, 'z) BaseBART_scheme \<Rightarrow> rng \<Rightarrow> 'a tree \<Rightarrow> nat list
      \<Rightarrow> (error + float64) \<times> ('a, 'z) BaseBART_scheme \<times> rng)
   \<Rightarrow> ('a, 'z) BaseBART_scheme \<Rightarrow> rng \<Rightarrow> 'a tree \<Rightarrow> nat \<Rightarrow> 'a node \<Rightarrow> nat list
   \<Rightarrow> (error + bool) \<times> ('a, 'z) BaseBART_scheme \<times> rng \<times> 'a tree" where
  "grow_tree_select draw self r t index_leaf_node current_node available_predictors =
     (case sample_dist_splitting_variable self r (int (length available_predictors)) of
        (Inl e, self1, r1) \<Rightarrow> (Inl e, self1, r1, t)
      | (Inr index_selected_predictor, self1, r1) \<Rightarrow>
          (case py_index available_predictors index_selected_predictor of
             Inl e \<Rightarrow> (Inl e, self1, r1, t)
           | Inr selected_predictor \<Rightarrow>
               (case get_available_splitting_rules self1 (idx_data_points current_node)
                       selected_predictor of
                  Inl e \<Rightarrow> (Inl e, self1, r1, t)
                | Inr (available_splitting_rules, uu) \<Rightarrow>
                    (case sample_dist_splitting_rule_assignment self1 r1
                            (int (length available_splitting_rules)) of
                       (Inl e, self2, r2) \<Rightarrow> (Inl e, self2, r2, t)
                     | (Inr index_selected_splitting_rule, self2, r2) \<Rightarrow>
                         (case py_index available_splitting_rules index_selected_splitting_rule of
                            Inl e \<Rightarrow> (Inl e, self2, r2, t)
                          | Inr selected_splitting_rule \<Rightarrow>
                              grow_tree_children draw self2 r2 t index_leaf_node current_node
                                selected_predictor selected_splitting_rule)))))"

definition grow_tree ::
  "(('a::linorder, 'z) BaseBART_scheme \<Rightarrow> rng \<Rightarrow> 'a tree \<Rightarrow> nat list
      \<Rightarrow> (error + float64) \<times> ('a, 'z) BaseBART_scheme \<times> rng)
   \<Rightarrow> ('a, 'z) BaseBART_scheme \<Rightarrow> rng \<Rightarrow> 'a tree \<Rightarrow> nat
   \<Rightarrow> (error + bool) \<times> ('a, 'z) BaseBART_scheme \<times> rng \<times> 'a tree" where
  "grow_tree draw self r t index_leaf_node =
     (case get_node t index_leaf_node of
        Inl e \<Rightarrow> (Inl e, self, r, t)
      | Inr current_node \<Rightarrow>
          (case get_available_predictors self (idx_data_points current_node) of
             Inl e \<Rightarrow> (Inl e, self, r, t)
           | Inr available_predictors \<Rightarrow>
               if available_predictors = [] then (Inr False, self, r, t)
               else grow_tree_select draw self r t index_leaf_node current_node
                      available_predictors))"

subsection \<open>The constructors\<close>

text \<open>
  The arguments are Python values. A float argument is a real number or nan; an
  array argument is an ndarray of some dtype and dimension, or something else.
  \<open>model_on_context\<close> says whether \<open>Model.get_context()\<close> finds a model.
\<close>

datatype pyval = PyNone | PyBool bool | PyInt int | PyFloat real | PyNaN | PyStr string

datatype dtype = Float64 | OtherDtype

datatype 'a ndarray = Array1 "real list" | Array2 "'a ndarray2" | ArrayOther

datatype 'a pyarray = NotNdarray | Ndarray dtype "'a ndarray"

fun isinstance_int :: "pyval \<Rightarrow> int option" where
  \<comment> \<open>the value, when \<open>isinstance(v, int)\<close> holds; \<open>bool\<close> is a subclass of \<open>int\<close>\<close>
  "isinstance_int (PyInt i) = Some i"
| "isinstance_int (PyBool b) = Some (if b then 1 else 0)"
| "isinstance_int v = None"

fun isinstance_float :: "pyval \<Rightarrow> float64 option" where
  \<comment> \<open>the value, when \<open>isinstance(v, float)\<close> holds\<close>
  "isinstance_float (PyFloat x) = Some (Some x)"
| "isinstance_float PyNaN = Some None"
| "isinstance_float v = None"

definition flt :: "float64 \<Rightarrow> float64 \<Rightarrow> bool" where
  \<comment> \<open>\<open><\<close> on floats: false as soon as one side is nan.\<close>
  "flt x y = (case x of None \<Rightarrow> False | Some a \<Rightarrow> (case y of None \<Rightarrow> False | Some b \<Rightarrow> a < b))"

record 'a BART_args =
  model_on_context :: bool
  arg_X :: "'a pyarray"
  arg_Y :: "'a pyarray"
  arg_m :: pyval
  arg_alpha :: pyval
  arg_beta :: pyval
  arg_tree_sampler :: pyval
  arg_transform :: pyval

record 'a ConjugateBART_args = "'a BART_args" +
  arg_nu :: pyval
  arg_q :: pyval
  arg_k :: pyval

text \<open>
  A constructor that raises leaves no engine. Its failure is the exception together
  with the trees and the sampler caches that had been allocated on \<open>self\<close> when the
  exception left the constructor.
\<close>

type_synonym 'a failure = "error \<times> 'a tree list \<times> sampler list"

definition BaseBART_build ::
  "'a ndarray2 \<Rightarrow> real list \<Rightarrow> int \<Rightarrow> float64 \<Rightarrow> float64 \<Rightarrow> string \<Rightarrow> string option \<Rightarrow> int
     \<Rightarrow> 'a failure + 'a BaseBART" where
  \<comment> \<open>\<open>BaseBART.__init__\<close> after its checks. \<open>Y.min()\<close> raises ValueError on an empty
      array. The checks leave \<open>transform\<close> as \<open>'regression'\<close>, \<open>'classification'\<close> or
      \<open>None\<close>. In \<open>self0\<close> the attributes assigned later hold placeholders.\<close>
  "BaseBART_build Xm Yv m alpha beta ts tr cs =
     (if Yv = [] then Inl (ValueError, [], [])
      else
        (let self0 = \<lparr>self_X = Xm, num_observations = shape0 Xm, number_variates = shape1 Xm,
               self_Y = Yv, transform = tr, Y_min = Min (set Yv), Y_max = Max (set Yv),
               Y_transf_max_Y_transf_min_half_diff =
                 (if tr = Some ''regression'' then 0.5
                  else if tr = Some ''classification'' then 3.0
                  else (Max (set Yv) - Min (set Yv)) / 2),
               Y_transformed = [], overestimated_sigma = None, self_m = m,
               prior_alpha = alpha, prior_beta = beta, tree_sampler = ts,
               normal_distribution_sampler = new_sampler cs,
               discrete_uniform_distribution_sampler = new_sampler cs,
               sum_trees_output = [], trees = []\<rparr>;
             yt = transform_Y self0 (map Some Yv);
             initial_value_leaf_nodes = fdiv (np_mean yt) (Some (real_of_int m));
             initial_idx_data_points_leaf_nodes = [0..<shape0 Xm]
         in Inr (self0\<lparr>Y_transformed := yt, overestimated_sigma := np_std yt,
                   sum_trees_output := map (\<lambda>y. Some 0) Yv,
                   trees := replicate (nat m)
                     (init_tree initial_value_leaf_nodes initial_idx_data_points_leaf_nodes)\<rparr>)))"

definition BaseBART_check_params ::
  "('a, 'z) BART_args_scheme \<Rightarrow> 'a ndarray2 \<Rightarrow> real list \<Rightarrow> int \<Rightarrow> 'a failure + 'a BaseBART" where
  \<comment> \<open>the checks of \<open>m\<close>, \<open>alpha\<close>, \<open>beta\<close>, \<open>tree_sampler\<close> and \<open>transform\<close>, in the
      order of the source. Past them \<open>tree_sampler\<close> is a string and \<open>transform\<close> a string
      or \<open>None\<close>: the last branch of the two conversions is taken by \<open>None\<close> only.\<close>
  "BaseBART_check_params a Xm Yv cs =
     (case isinstance_int (arg_m a) of
        None \<Rightarrow> Inl (BARTParamsError, [], [])
      | Some m \<Rightarrow>
          if m < 1 then Inl (BARTParamsError, [], [])
          else
            (case isinstance_float (arg_alpha a) of
               None \<Rightarrow> Inl (BARTParamsError, [], [])
             | Some alpha \<Rightarrow>
                 if fle alpha (Some 0) \<or> fle (Some 1) alpha then Inl (BARTParamsError, [], [])
                 else
                   (case isinstance_float (arg_beta a) of
                      None \<Rightarrow> Inl (BARTParamsError, [], [])
                    | Some beta \<Rightarrow>
                        if flt beta (Some 0) then Inl (BARTParamsError, [], [])
                        else if arg_tree_sampler a \<noteq> PyStr ''GrowPrune''
                                \<and> arg_tree_sampler a \<noteq> PyStr ''ParticleGibbs''
                        then Inl (BARTParamsError, [], [])
                        else if arg_transform a \<noteq> PyNone
                                \<and> arg_transform a \<noteq> PyStr ''regression''
                                \<and> arg_transform a \<noteq> PyStr ''classification''
                        then Inl (BARTParamsError, [], [])
                        else BaseBART_build Xm Yv m alpha beta
                               (case arg_tree_sampler a of PyStr s \<Rightarrow> s | v \<Rightarrow> [])
                               (case arg_transform a of PyStr s \<Rightarrow> Some s | v \<Rightarrow> None) cs)))"

definition BaseBART_init :: "('a, 'z) BART_args_scheme \<Rightarrow> int \<Rightarrow> 'a failure + 'a BaseBART" where
  \<comment> \<open>\<open>BaseBART.__init__\<close>; the second argument is \<open>cache_size\<close>\<close>
  "BaseBART_init a cs =
     (if \<not> model_on_context a then Inl (TypeError, [], [])
      else
        (case arg_X a of
           NotNdarray \<Rightarrow> Inl (BARTParamsError, [], [])
         | Ndarray OtherDtype Xa \<Rightarrow> Inl (BARTParamsError, [], [])
         | Ndarray Float64 Xa \<Rightarrow>
             (case Xa of
                Array1 v \<Rightarrow> Inl (BARTParamsError, [], [])
              | ArrayOther \<Rightarrow> Inl (BARTParamsError, [], [])
              | Array2 Xm \<Rightarrow>
                  (case arg_Y a of
                     NotNdarray \<Rightarrow> Inl (BARTParamsError, [], [])
                   | Ndarray OtherDtype Ya \<Rightarrow> Inl (BARTParamsError, [], [])
                   | Ndarray Float64 Ya \<Rightarrow>
                       (case Ya of
                          Array2 v \<Rightarrow> Inl (BARTParamsError, [], [])
                        | ArrayOther \<Rightarrow> Inl (BARTParamsError, [], [])
                        | Array1 Yv \<Rightarrow>
                            if shape0 Xm \<noteq> length Yv then Inl (BARTParamsError, [], [])
                            else BaseBART_check_params a Xm Yv cs)))))"

definition BART_init :: "('a, 'z) BART_args_scheme \<Rightarrow> 'a failure + 'a BaseBART" where
  \<comment> \<open>\<open>BART.__init__\<close> passes no \<open>cache_size\<close>: the default 5000 applies.\<close>
  "BART_init a = BaseBART_init a 5000"

definition compute_lambda_value_scaled_inverse_chi_square ::
  "(float64 \<Rightarrow> float64 \<Rightarrow> float64) \<Rightarrow> float64 \<Rightarrow> float64 \<Rightarrow> float64 \<Rightarrow> float64" where
  \<comment> \<open>SciPy's \<open>chi2.ppf\<close> is the parameter \<open>chi2_ppf\<close>.\<close>
  "compute_lambda_value_scaled_inverse_chi_square chi2_ppf sigma q nu =
     fmul (fdiv (chi2_ppf (fsub (Some 1) q) nu) nu) sigma"

definition ConjugateBART_init ::
  "(float64 \<Rightarrow> float64 \<Rightarrow> float64) \<Rightarrow> ('a, 'z) ConjugateBART_args_scheme
     \<Rightarrow> 'a failure + 'a ConjugateBART" where
  \<comment> \<open>\<open>ConjugateBART.__init__\<close>: the base constructor first, then the checks of \<open>nu\<close>,
      \<open>q\<close> and \<open>k\<close>.\<close>
  "ConjugateBART_init chi2_ppf a =
     (case BaseBART_init a 5000 of
        Inl f \<Rightarrow> Inl f
      | Inr self \<Rightarrow>
          (let raised = Inl (BARTParamsError, trees self,
                 [normal_distribution_sampler self, discrete_uniform_distribution_sampler self])
           in case isinstance_float (arg_nu a) of
                None \<Rightarrow> raised
              | Some nu \<Rightarrow>
                  if flt nu (Some 3.0) then raised
                  else
                    (case isinstance_float (arg_q a) of
                       None \<Rightarrow> raised
                     | Some q \<Rightarrow>
                         if fle q (Some 0) \<or> fle (Some 1) q then raised
                         else
                           (case isinstance_float (arg_k a) of
                              None \<Rightarrow> raised
                            | Some k \<Rightarrow>
                                if fle k (Some 0) then raised
                                else Inr (BaseBART.extend self
                                  (ConjugateBART.fields k nu q
                                     (compute_lambda_value_scaled_inverse_chi_square chi2_ppf
                                        (overestimated_sigma self) q nu)
                                     1.0 0.0
                                     (fdiv (Some (Y_transf_max_Y_transf_min_half_diff self))
                                        (fmul k (Some (sqrt (real_of_int (self_m self))))))))))))"

text \<open>
  The states in which the two concrete versions of \<open>draw_leaf_value\<close> are shown to
  return, for an engine of \<open>n\<close> observations: \<open>sum_trees_output\<close> has one entry for
  each observation and the normal sampler has a positive cache size; for the conjugate
  engine, \<open>current_sigma\<close> is not zero.
\<close>

definition draw_ready :: "nat \<Rightarrow> ('a, 'z) BaseBART_scheme \<Rightarrow> bool" where
  "draw_ready n s = (length (sum_trees_output s) = n \<and> num_observations s = n
     \<and> 0 < cache_size (normal_distribution_sampler s))"

definition conjugate_draw_ready :: "nat \<Rightarrow> ('a, 'z) ConjugateBART_scheme \<Rightarrow> bool" where
  "conjugate_draw_ready n s = (draw_ready n s \<and> current_sigma s \<noteq> 0)"


subsection \<open>The parameter rules, as the specification words them\<close>

text \<open>
  Section 4.8 of the specification: "X must be a 2-D float64 array; Y a 1-D float64
  array with matching row count; m a positive integer; alpha in (0,1); beta >= 0;
  tree_sampler in {GrowPrune, ParticleGibbs}; transform in {None, regression,
  classification}; for the conjugate variant, nu >= 3.0, q in (0,1), k > 0". An
  integer is what Python's \<open>isinstance(m, int)\<close> accepts; nan satisfies no rule.
\<close>

definition base_rules_hold :: "('a, 'z) BART_args_scheme \<Rightarrow> bool" where
  "base_rules_hold a =
     ((case arg_X a of
         Ndarray Float64 (Array2 Xm) \<Rightarrow>
           (case arg_Y a of Ndarray Float64 (Array1 Yv) \<Rightarrow> shape0 Xm = length Yv | v \<Rightarrow> False)
       | v \<Rightarrow> False)
      \<and> (case isinstance_int (arg_m a) of Some m \<Rightarrow> 1 \<le> m | None \<Rightarrow> False)
      \<and> (case arg_alpha a of PyFloat x \<Rightarrow> 0 < x \<and> x < 1 | v \<Rightarrow> False)
      \<and> (case arg_beta a of PyFloat x \<Rightarrow> 0 \<le> x | v \<Rightarrow> False)
      \<and> (arg_tree_sampler a = PyStr ''GrowPrune'' \<or> arg_tree_sampler a = PyStr ''ParticleGibbs'')
      \<and> (arg_transform a = PyNone \<or> arg_transform a = PyStr ''regression''
           \<or> arg_transform a = PyStr ''classification''))"

definition conjugate_rules_hold :: "('a, 'z) ConjugateBART_args_scheme \<Rightarrow> bool" where
  "conjugate_rules_hold a =
     ((case arg_nu a of PyFloat x \<Rightarrow> 3 \<le> x | v \<Rightarrow> False)
      \<and> (case arg_q a of PyFloat x \<Rightarrow> 0 < x \<and> x < 1 | v \<Rightarrow> False)
      \<and> (case arg_k a of PyFloat x \<Rightarrow> 0 < x | v \<Rightarrow> False))"

subsection \<open>The conjugate leaf draw, as the specification words it\<close>

text \<open>
  Section 4.7 of the specification, for the residuals of the rows \<open>R\<close>: the prior
  standard deviation is \<open>half_range / (k sqrt m)\<close>, "prior_var = prior_sigma_mu^2;
  likelihood_var = sigma^2 / |R|; likelihood_mean = mean of residuals[R];
  posterior_var = 1 / (1 / prior_var + 1 / likelihood_var); posterior_mean =
  likelihood_mean prior_var / (likelihood_var + prior_var); Draw = posterior_mean +
  z sqrt (posterior_var / m)".
\<close>

definition conjugate_posterior_draw :: "real \<Rightarrow> real \<Rightarrow> int \<Rightarrow> real \<Rightarrow> real list \<Rightarrow> real \<Rightarrow> real" where
  "conjugate_posterior_draw half_range k m sigma residuals z =
     (let prior_sigma_mu = half_range / (k * sqrt (real_of_int m));
          prior_var = prior_sigma_mu\<^sup>2;
          likelihood_var = sigma\<^sup>2 / real (length residuals);
          likelihood_mean = sum_list residuals / real (length residuals);
          posterior_var = 1 / (1 / prior_var + 1 / likelihood_var);
          posterior_mean = likelihood_mean * prior_var / (likelihood_var + prior_var)
      in posterior_mean + z * sqrt (posterior_var / real_of_int m))"

subsection \<open>Example inputs\<close>

text \<open>
  A design matrix of four rows and two columns: the first column holds 1, 2, 3, 4, the
  second is constant but for one nan.
\<close>

definition example_X :: "real ndarray2" where
  "example_X = \<lparr>shape0 = 4, shape1 = 2,
     item = (\<lambda>i j. if j = 0 then Some (real i + 1) else if i = 1 then None else Some 5)\<rparr>"

definition example_rows :: "nat list" where
  "example_rows = [0, 1, 2, 3]"

text \<open>
  The arguments of the spec's end-to-end example, with this design matrix: the response
  1, 2, 3, 4, one tree, no transform. \<open>example_built\<close> is the engine the constructor
  builds from them (\<open>BART_init_example\<close> below), \<open>example_engine\<close> the same engine once
  its two caches hold a few numbers.
\<close>

definition example_args :: "real BART_args" where
  "example_args = \<lparr>model_on_context = True, arg_X = Ndarray Float64 (Array2 example_X),
     arg_Y = Ndarray Float64 (Array1 [1, 2, 3, 4]), arg_m = PyInt 1, arg_alpha = PyFloat 0.95,
     arg_beta = PyFloat 2, arg_tree_sampler = PyStr ''GrowPrune'', arg_transform = PyNone\<rparr>"

definition example_built :: "real BaseBART" where
  "example_built = \<lparr>self_X = example_X, num_observations = 4, number_variates = 2,
     self_Y = [1, 2, 3, 4], transform = None, Y_min = 1, Y_max = 4,
     Y_transf_max_Y_transf_min_half_diff = 3 / 2,
     Y_transformed = [Some 1, Some 2, Some 3, Some 4], overestimated_sigma = Some (sqrt (5 / 4)),
     self_m = 1, prior_alpha = Some 0.95, prior_beta = Some 2, tree_sampler = ''GrowPrune'',
     normal_distribution_sampler = \<lparr>cache_size = 5000, cache = []\<rparr>,
     discrete_uniform_distribution_sampler = \<lparr>cache_size = 5000, cache = []\<rparr>,
     sum_trees_output = [Some 0, Some 0, Some 0, Some 0],
     trees = [init_tree (Some (5 / 2)) example_rows]\<rparr>"

definition example_engine :: "real BaseBART" where
  "example_engine = example_built
     \<lparr>normal_distribution_sampler := \<lparr>cache_size = 5000, cache = [0, 1]\<rparr>,
      discrete_uniform_distribution_sampler := \<lparr>cache_size = 5000, cache = [1 / 2, 1 / 4]\<rparr>\<rparr>"

text \<open>
  A generator, the initial tree of the example engine, and a \<open>predict_output\<close> that
  answers the initial leaf value for every observation.
\<close>

definition example_rng :: rng where
  "example_rng = \<lparr>normal_src = (\<lambda>k. 0), normal_pos = 0, uniform_src = (\<lambda>k. 1 / 2), uniform_pos = 0\<rparr>"

definition example_tree :: "real tree" where
  "example_tree = init_tree (Some (5 / 2)) example_rows"

definition example_predict_output :: "real tree \<Rightarrow> nat \<Rightarrow> float64 list" where
  "example_predict_output t n = replicate n (Some (5 / 2))"

text \<open>The same arguments with the transform \<open>'regression'\<close>.\<close>

definition example_regression_args :: "real BART_args" where
  "example_regression_args = example_args\<lparr>arg_transform := PyStr ''regression''\<rparr>"


text \<open>
  Arguments for the conjugate engine: the example arguments with the default \<open>nu\<close>,
  \<open>q\<close> and \<open>k\<close>, and the same with \<open>nu = 2.0\<close>, which breaks the rule \<open>nu >= 3.0\<close>.
  \<open>unknown_chi2_ppf\<close> stands for SciPy's \<open>chi2.ppf\<close>: no statement depends on its values.
\<close>

definition example_conjugate_args :: "real ConjugateBART_args" where
  "example_conjugate_args = \<lparr>model_on_context = True, arg_X = Ndarray Float64 (Array2 example_X),
     arg_Y = Ndarray Float64 (Array1 [1, 2, 3, 4]), arg_m = PyInt 1, arg_alpha = PyFloat 0.95,
     arg_beta = PyFloat 2, arg_tree_sampler = PyStr ''GrowPrune'', arg_transform = PyNone,
     arg_nu = PyFloat 3, arg_q = PyFloat 0.9, arg_k = PyFloat 2\<rparr>"

definition example_bad_nu_args :: "real ConjugateBART_args" where
  "example_bad_nu_args = example_conjugate_args\<lparr>arg_nu := PyFloat 2\<rparr>"

definition unknown_chi2_ppf :: "float64 \<Rightarrow> float64 \<Rightarrow> float64" where
  "unknown_chi2_ppf p df = None"

text \<open>
  A response of seven values under \<open>'regression'\<close>, with a design matrix of one column,
  and the engine the constructor builds from them (\<open>BART_init_seven\<close> below).
\<close>

definition example_seven_args :: "real BART_args" where
  "example_seven_args = \<lparr>model_on_context = True,
     arg_X = Ndarray Float64 (Array2 \<lparr>shape0 = 7, shape1 = 1, item = (\<lambda>i j. Some (real i))\<rparr>),
     arg_Y = Ndarray Float64 (Array1 [1, 2, 3, 4, 5, 6, 7]), arg_m = PyInt 1,
     arg_alpha = PyFloat 0.95, arg_beta = PyFloat 2, arg_tree_sampler = PyStr ''GrowPrune'',
     arg_transform = PyStr ''regression''\<rparr>"


definition example_seven_built :: "real BaseBART" where
  "example_seven_built = \<lparr>self_X = \<lparr>shape0 = 7, shape1 = 1, item = (\<lambda>i j. Some (real i))\<rparr>,
     num_observations = 7, number_variates = 1,
     self_Y = [1, 2, 3, 4, 5, 6, 7], transform = Some ''regression'', Y_min = 1, Y_max = 7,
     Y_transf_max_Y_transf_min_half_diff = 1 / 2,
     Y_transformed = [Some (- (1 / 2)), Some (- (1 / 3)), Some (- (1 / 6)), Some 0,
       Some (1 / 6), Some (1 / 3), Some (1 / 2)],
     overestimated_sigma = Some (1 / 3),
     self_m = 1, prior_alpha = Some 0.95, prior_beta = Some 2, tree_sampler = ''GrowPrune'',
     normal_distribution_sampler = \<lparr>cache_size = 5000, cache = []\<rparr>,
     discrete_uniform_distribution_sampler = \<lparr>cache_size = 5000, cache = []\<rparr>,
     sum_trees_output = [Some 0, Some 0, Some 0, Some 0, Some 0, Some 0, Some 0],
     trees = [init_tree (Some 0) [0, 1, 2, 3, 4, 5, 6]]\<rparr>"

section \<open>Properties\<close>

subsection \<open>Auxiliary facts\<close>

lemma adjacent_differ_iff: "adjacent_differ xs = (\<exists>a\<in>set xs. \<exists>b\<in>set xs. a \<noteq> b)"
  by (induction xs rule: adjacent_differ.induct) auto

lemma set_drop_nan: "set (drop_nan xs) = {v. Some v \<in> set xs}"
  by (induction xs rule: drop_nan.induct) auto

lemma take_column_in_range:
  "\<forall>i\<in>set idx. i < shape0 X \<Longrightarrow> j < shape1 X \<Longrightarrow>
     take_column X idx j = Inr (map (\<lambda>i. item X i j) idx)"
  by (simp add: take_column_def list_all_iff)

lemma column_values: "set (drop_nan (map (\<lambda>i. item X i j) idx)) = {v. \<exists>i\<in>set idx. item X i j = Some v}"
  by (force simp: set_drop_nan)

lemma card_ge_2_iff: "finite S \<Longrightarrow> (2 \<le> card S) = (\<exists>a\<in>S. \<exists>b\<in>S. a \<noteq> b)"
proof
  assume fin: "finite S" and two: "2 \<le> card S"
  show "\<exists>a\<in>S. \<exists>b\<in>S. a \<noteq> b"
  proof (rule ccontr)
    assume "\<not> (\<exists>a\<in>S. \<exists>b\<in>S. a \<noteq> b)"
    then have "card S \<le> 1"
      by (metis card_le_Suc0_iff_eq fin One_nat_def)
    with two show False by simp
  qed
next
  assume fin: "finite S" and ex: "\<exists>a\<in>S. \<exists>b\<in>S. a \<noteq> b"
  then obtain a b where ab: "a \<in> S" "b \<in> S" "a \<noteq> b" by blast
  then have "card {a, b} \<le> card S"
    by (intro card_mono fin) auto
  with ab show "2 \<le> card S" by simp
qed

lemma available_predictors_loop_filter:
  "\<forall>i\<in>set idx. i < shape0 (self_X self) \<Longrightarrow> \<forall>j\<in>set js. j < shape1 (self_X self) \<Longrightarrow>
   available_predictors_loop self idx js acc =
     Inr (acc @ filter (\<lambda>j. adjacent_differ (drop_nan (map (\<lambda>i. item (self_X self) i j) idx))) js)"
  by (induction js arbitrary: acc) (simp_all add: take_column_in_range)

lemma strict_sorted_butlast:
  "sorted_wrt (<) (l::'a::linorder list) \<Longrightarrow> set (butlast l) = {v \<in> set l. \<exists>w\<in>set l. v < w}"
proof (induction l)
  case Nil
  then show ?case by simp
next
  case (Cons x xs)
  show ?case
  proof (cases "xs = []")
    case True
    then show ?thesis by auto
  next
    case False
    then obtain y where y: "y \<in> set xs" by (cases xs) auto
    from Cons.prems have lt: "\<forall>z\<in>set xs. x < z" and srt: "sorted_wrt (<) xs" by auto
    from Cons.IH [OF srt] have IH: "set (butlast xs) = {v \<in> set xs. \<exists>w\<in>set xs. v < w}" .
    show ?thesis using False y lt IH by (auto dest: less_asym)
  qed
qed

subsection \<open>The example engine, evaluated\<close>

lemma example_fields:
  "self_X example_engine = example_X"
  "number_variates example_engine = 2"
  "num_observations example_engine = 4"
  "self_m example_engine = 1"
  "sum_trees_output example_engine = [Some 0, Some 0, Some 0, Some 0]"
  "normal_distribution_sampler example_engine = \<lparr>cache_size = 5000, cache = [0, 1]\<rparr>"
  "discrete_uniform_distribution_sampler example_engine = \<lparr>cache_size = 5000, cache = [1 / 2, 1 / 4]\<rparr>"
  by (simp_all add: example_engine_def example_built_def)

lemma example_rows_in_range: "\<forall>i\<in>set example_rows. i < shape0 (self_X example_engine)"
  by (simp add: example_fields example_X_def example_rows_def)

lemma example_columns:
  "take_column example_X example_rows 0 = Inr [Some 1, Some 2, Some 3, Some 4]"
  "take_column example_X example_rows (Suc 0) = Inr [Some 5, None, Some 5, Some 5]"
  by (simp_all add: take_column_def example_X_def example_rows_def)

lemma example_predictors: "get_available_predictors example_engine example_rows = Inr [0]"
proof -
  have "[0..<2] = [0, 1::nat]" by (simp add: upt_rec)
  then show ?thesis
    by (simp add: get_available_predictors_def example_fields example_columns)
qed

lemma example_rules:
  "self_X s = example_X \<Longrightarrow>
     get_available_splitting_rules s example_rows 0 = Inr ([1, 2, 3], [0, 1, 2])"
  by (simp add: get_available_splitting_rules_def example_columns np_unique_def)

subsection \<open>Available predictors\<close>

lemma available_predictors_filter:
  assumes "\<forall>i\<in>set rows. i < shape0 (self_X self)"
    and "number_variates self = shape1 (self_X self)"
  shows "\<exists>ps. get_available_predictors self rows = Inr ps
     \<and> ps = filter (\<lambda>j. 2 \<le> card {v. \<exists>i\<in>set rows. item (self_X self) i j = Some v})
                [0..<number_variates self]
     \<and> (\<forall>j c. (\<forall>i\<in>set rows. item (self_X self) i j = Some c) \<longrightarrow> j \<notin> set ps)"
proof -
  let ?V = "\<lambda>j. {v. \<exists>i\<in>set rows. item (self_X self) i j = Some v}"
  let ?ps = "filter (\<lambda>j. 2 \<le> card (?V j)) [0..<number_variates self]"
  have fin: "finite (?V j)" for j
    using column_values [of "self_X self" j rows, symmetric] by (metis List.finite_set)
  have test: "adjacent_differ (drop_nan (map (\<lambda>i. item (self_X self) i j) rows)) = (2 \<le> card (?V j))" for j
    unfolding adjacent_differ_iff column_values card_ge_2_iff [OF fin] ..
  have "get_available_predictors self rows = Inr ?ps"
    unfolding get_available_predictors_def
    using assms by (simp add: available_predictors_loop_filter test)
  moreover have "j \<notin> set ?ps" if c: "\<forall>i\<in>set rows. item (self_X self) i j = Some c" for j c
  proof -
    have "?V j \<subseteq> {c}" using c by auto
    then have "card (?V j) \<le> 1"
      by (metis card_mono finite.emptyI finite.insertI card.empty card.insert empty_iff One_nat_def)
    then show ?thesis by simp
  qed
  ultimately show ?thesis by blast
qed

text \<open>
  Claim C6. For rows within the matrix, \<open>get_available_predictors\<close> returns, in
  column order, exactly the columns that hold at least two distinct values on those
  rows once the nan entries are dropped. A column that is constant on the rows is not
  returned.
\<close>

theorem get_available_predictors_spec:
  assumes "\<forall>i\<in>set rows. i < shape0 (self_X self)"
    and "number_variates self = shape1 (self_X self)"
  shows "\<exists>ps. get_available_predictors self rows = Inr ps
     \<and> ps = filter (\<lambda>j. 2 \<le> card {v. \<exists>i\<in>set rows. item (self_X self) i j = Some v})
                [0..<number_variates self]
     \<and> (\<forall>j c. (\<forall>i\<in>set rows. item (self_X self) i j = Some c) \<longrightarrow> j \<notin> set ps)"
  using assms by (rule available_predictors_filter)

theorem get_available_predictors_spec_witness:
  "list_all (\<lambda>i. i < shape0 (self_X example_engine)) example_rows
   \<and> number_variates example_engine = shape1 (self_X example_engine)
   \<and> get_available_predictors example_engine example_rows = Inr [0]
   \<and> get_available_predictors example_engine example_rows =
       Inr (filter (\<lambda>j. 2 \<le> card {v. \<exists>i\<in>set example_rows. item (self_X example_engine) i j = Some v})
              [0..<number_variates example_engine])"
proof -
  have h2: "number_variates example_engine = shape1 (self_X example_engine)"
    by (simp add: example_fields example_X_def)
  from get_available_predictors_spec [OF example_rows_in_range h2] example_predictors
    example_rows_in_range h2
  show ?thesis
    by (simp add: list_all_iff)
qed

subsection \<open>Splitting rules and the split of the rows\<close>

lemma select_map_filter: "select (map p (map f xs)) xs = filter (\<lambda>i. p (f i)) xs"
  by (induction xs) (simp_all add: select_def)

lemma get_new_idx_data_points_filter:
  assumes "\<forall>i\<in>set rows. i < shape0 (self_X self)" and "j < shape1 (self_X self)"
  shows "get_new_idx_data_points self (SplitNode k j sv rows) =
     Inr (filter (\<lambda>i. fle (item (self_X self) i j) sv) rows,
          filter (\<lambda>i. \<not> fle (item (self_X self) i j) sv) rows)"
  using assms
  by (simp add: get_new_idx_data_points_def take_column_in_range select_map_filter del: map_map)

lemma splitting_rules_values:
  assumes "\<forall>i\<in>set rows. i < shape0 (self_X self)" and "j < shape1 (self_X self)"
  shows "get_available_splitting_rules self rows j =
     Inr (butlast (sorted_list_of_set {v. \<exists>i\<in>set rows. item (self_X self) i j = Some v}),
          butlast (map (first_index (drop_nan (map (\<lambda>i. item (self_X self) i j) rows)))
            (sorted_list_of_set {v. \<exists>i\<in>set rows. item (self_X self) i j = Some v})))"
  using assms
  by (simp add: get_available_splitting_rules_def take_column_in_range np_unique_def Let_def
      sorted_list_of_set_sort_remdups [symmetric] column_values)

lemma strict_sorted_butlast_sorted: "sorted_wrt (<) (l::'a::linorder list) \<Longrightarrow> sorted_wrt (<) (butlast l)"
  by (simp add: butlast_conv_take sorted_wrt_take)

lemma splitting_rules_below_max:
  assumes "\<forall>i\<in>set rows. i < shape0 (self_X self)" and "j < shape1 (self_X self)"
    and V: "V = {v. \<exists>i\<in>set rows. item (self_X self) i j = Some v}"
  shows "\<exists>vals inds. get_available_splitting_rules self rows j = Inr (vals, inds)
     \<and> vals = butlast (sorted_list_of_set V)
     \<and> sorted_wrt (<) vals
     \<and> set vals = {v \<in> V. \<exists>w\<in>V. v < w}
     \<and> (V \<noteq> {} \<longrightarrow> Max V \<notin> set vals)"
proof -
  have fin: "finite V"
    unfolding V using column_values [of "self_X self" j rows, symmetric] by (metis List.finite_set)
  let ?l = "sorted_list_of_set V"
  have srt: "sorted_wrt (<) ?l" by (rule strict_sorted_list_of_set)
  have setl: "set ?l = V" using fin by simp
  have s: "set (butlast ?l) = {v \<in> V. \<exists>w\<in>V. v < w}"
    using strict_sorted_butlast [OF srt] setl by simp
  have mx: "Max V \<notin> set (butlast ?l)" if "V \<noteq> {}"
  proof
    assume "Max V \<in> set (butlast ?l)"
    then obtain w where "w \<in> V" "Max V < w" using s by auto
    then show False using Max_ge [OF fin, of w] by simp
  qed
  show ?thesis
    using splitting_rules_values [OF assms(1,2)] s mx strict_sorted_butlast_sorted [OF srt]
    unfolding V [symmetric] by blast
qed

text \<open>
  Claim C7. For rows within the matrix and a column \<open>j\<close> of it, the values that
  \<open>get_available_splitting_rules\<close> returns are the distinct non-nan values \<open>V\<close> of column
  \<open>j\<close> on those rows, in increasing order, without the last: exactly the values of \<open>V\<close>
  below some other value of \<open>V\<close>. The maximum of \<open>V\<close> is never among them.
\<close>

theorem get_available_splitting_rules_spec:
  assumes "\<forall>i\<in>set rows. i < shape0 (self_X self)" and "j < shape1 (self_X self)"
    and V: "V = {v. \<exists>i\<in>set rows. item (self_X self) i j = Some v}"
  shows "\<exists>vals inds. get_available_splitting_rules self rows j = Inr (vals, inds)
     \<and> vals = butlast (sorted_list_of_set V)
     \<and> sorted_wrt (<) vals
     \<and> set vals = {v \<in> V. \<exists>w\<in>V. v < w}
     \<and> (V \<noteq> {} \<longrightarrow> Max V \<notin> set vals)"
  using assms by (rule splitting_rules_below_max)

theorem get_available_splitting_rules_spec_witness:
  "list_all (\<lambda>i. i < shape0 (self_X example_engine)) example_rows
   \<and> 0 < shape1 (self_X example_engine)
   \<and> get_available_splitting_rules example_engine example_rows 0 = Inr ([1, 2, 3], [0, 1, 2])
   \<and> Max {1, 2, 3, 4 :: real} \<notin> set [1, 2, 3 :: real]"
proof -
  have h2: "0 < shape1 (self_X example_engine)"
    by (simp add: example_fields example_X_def)
  have h3: "{1, 2, 3, 4 :: real} = {v. \<exists>i\<in>set example_rows. item (self_X example_engine) i 0 = Some v}"
    by (auto simp: example_fields example_X_def example_rows_def)
  from get_available_splitting_rules_spec [OF example_rows_in_range h2 h3]
    example_rules [OF example_fields(1)] example_rows_in_range h2
  show ?thesis
    by (simp add: list_all_iff)
qed

subsection \<open>A successful \<open>grow_tree\<close>\<close>

lemma take_column_Inr:
  "take_column X idx j = Inr c \<Longrightarrow>
     (\<forall>i\<in>set idx. i < shape0 X) \<and> j < shape1 X \<and> c = map (\<lambda>i. item X i j) idx"
  by (auto simp: take_column_def list_all_iff split: if_splits)

lemma available_predictors_loop_Inr:
  "available_predictors_loop self idx js acc = Inr ps \<Longrightarrow>
     (js \<noteq> [] \<longrightarrow> (\<forall>i\<in>set idx. i < shape0 (self_X self))) \<and>
     (\<forall>j\<in>set js. j < shape1 (self_X self)) \<and>
     ps = acc @ filter (\<lambda>j. adjacent_differ (drop_nan (map (\<lambda>i. item (self_X self) i j) idx))) js"
proof (induction js arbitrary: acc)
  case Nil
  then show ?case by simp
next
  case (Cons j js)
  from Cons.prems obtain c where c: "take_column (self_X self) idx j = Inr c"
    by (cases "take_column (self_X self) idx j") auto
  note tc = take_column_Inr [OF c]
  from Cons.prems c have
    "available_predictors_loop self idx js
       (if adjacent_differ (drop_nan c) then acc @ [j] else acc) = Inr ps"
    by simp
  from Cons.IH [OF this] tc show ?case by auto
qed

lemma available_predictor_data:
  assumes ps: "get_available_predictors self rows = Inr ps" and j: "j \<in> set ps"
  shows "(\<forall>i\<in>set rows. i < shape0 (self_X self)) \<and> j < shape1 (self_X self)
     \<and> 2 \<le> card {v. \<exists>i\<in>set rows. item (self_X self) i j = Some v}"
proof -
  let ?V = "{v. \<exists>i\<in>set rows. item (self_X self) i j = Some v}"
  note L = available_predictors_loop_Inr [OF ps [unfolded get_available_predictors_def]]
  from L j have js: "j \<in> set [0..<number_variates self]"
    and ad: "adjacent_differ (drop_nan (map (\<lambda>i. item (self_X self) i j) rows))" by auto
  from js have ne: "[0..<number_variates self] \<noteq> []" by auto
  have fin: "finite ?V"
    using column_values [of "self_X self" j rows, symmetric] by (metis List.finite_set)
  from ad have "2 \<le> card ?V"
    unfolding adjacent_differ_iff column_values card_ge_2_iff [OF fin] .
  with L js ne show ?thesis by auto
qed

lemma py_index_Inr: "py_index xs i = Inr x \<Longrightarrow> x \<in> set xs"
  by (auto simp: Let_def split: if_splits)

lemma sample_dist_splitting_variable_X:
  "sample_dist_splitting_variable self r v = (res, self', r') \<Longrightarrow> self_X self' = self_X self"
  by (auto simp: sample_dist_splitting_variable_def split: prod.splits)

lemma sample_dist_splitting_rule_assignment_X:
  "sample_dist_splitting_rule_assignment self r v = (res, self', r') \<Longrightarrow> self_X self' = self_X self"
  by (auto simp: sample_dist_splitting_rule_assignment_def split: prod.splits)

lemma get_available_splitting_rules_cong:
  "self_X s1 = self_X s \<Longrightarrow> get_available_splitting_rules s1 rows j = get_available_splitting_rules s rows j"
  by (simp add: get_available_splitting_rules_def)

lemma get_new_idx_data_points_cong:
  "self_X s1 = self_X s \<Longrightarrow> get_new_idx_data_points s1 n = get_new_idx_data_points s n"
  by (cases n) (simp_all add: get_new_idx_data_points_def)

lemma grow_tree_children_True:
  assumes "grow_tree_children draw s r t k node j sv = (Inr True, s', r', t')"
  shows "\<exists>left right lv rv.
     get_new_idx_data_points s (SplitNode k j (Some sv) (idx_data_points node)) = Inr (left, right)
     \<and> t' = tree_grow_tree t k (SplitNode k j (Some sv) (idx_data_points node))
              (LeafNode (get_idx_left_child node) lv left)
              (LeafNode (get_idx_right_child node) rv right)"
  using assms
  by (auto simp: grow_tree_children_def Let_def split: sum.splits prod.splits)

lemma grow_tree_select_True:
  assumes "grow_tree_select draw s r t k node ps = (Inr True, s', r', t')"
  shows "\<exists>j vals inds sv s2 r2. j \<in> set ps
     \<and> get_available_splitting_rules s (idx_data_points node) j = Inr (vals, inds)
     \<and> sv \<in> set vals \<and> self_X s2 = self_X s
     \<and> grow_tree_children draw s2 r2 t k node j sv = (Inr True, s', r', t')"
proof -
  from assms obtain i1 s1 r1 where
    a1: "sample_dist_splitting_variable s r (int (length ps)) = (Inr i1, s1, r1)"
    by (auto simp: grow_tree_select_def split: sum.splits prod.splits)
  from assms a1 obtain j where a2: "py_index ps i1 = Inr j"
    by (auto simp: grow_tree_select_def simp del: py_index.simps split: sum.splits prod.splits)
  from assms a1 a2 obtain vals inds where
    a3: "get_available_splitting_rules s1 (idx_data_points node) j = Inr (vals, inds)"
    by (auto simp: grow_tree_select_def simp del: py_index.simps split: sum.splits prod.splits)
  from assms a1 a2 a3 obtain i2 s2 r2 where
    a4: "sample_dist_splitting_rule_assignment s1 r1 (int (length vals)) = (Inr i2, s2, r2)"
    by (auto simp: grow_tree_select_def simp del: py_index.simps split: sum.splits prod.splits)
  from assms a1 a2 a3 a4 obtain sv where a5: "py_index vals i2 = Inr sv"
    by (auto simp: grow_tree_select_def simp del: py_index.simps split: sum.splits prod.splits)
  from assms a1 a2 a3 a4 a5 have
    a6: "grow_tree_children draw s2 r2 t k node j sv = (Inr True, s', r', t')"
    by (simp add: grow_tree_select_def del: py_index.simps)
  have x1: "self_X s1 = self_X s" by (rule sample_dist_splitting_variable_X [OF a1])
  have x2: "self_X s2 = self_X s1" by (rule sample_dist_splitting_rule_assignment_X [OF a4])
  from a3 have "get_available_splitting_rules s (idx_data_points node) j = Inr (vals, inds)"
    by (simp add: get_available_splitting_rules_cong [OF x1])
  moreover have "self_X s2 = self_X s" using x1 x2 by simp
  ultimately show ?thesis
    using py_index_Inr [OF a2] py_index_Inr [OF a5] a6 by blast
qed

lemma grow_tree_True:
  assumes "grow_tree draw s r t k = (Inr True, s', r', t')"
  shows "\<exists>node ps. t k = Some node \<and> get_available_predictors s (idx_data_points node) = Inr ps
     \<and> grow_tree_select draw s r t k node ps = (Inr True, s', r', t')"
  using assms
  by (auto simp: grow_tree_def get_node_def split: sum.splits option.splits if_splits)

text \<open>
  Claim C1. Whenever \<open>grow_tree\<close> succeeds on a leaf, the tree it leaves is the old one
  with the leaf replaced by a split node on some predictor \<open>j\<close> and threshold \<open>sv\<close> and
  with two new leaves whose row lists \<open>left\<close> and \<open>right\<close> are what
  \<open>get_new_idx_data_points\<close> computes: \<open>left\<close> holds exactly the leaf's rows whose value
  in column \<open>j\<close> is a number at most \<open>sv\<close>, \<open>right\<close> holds all the others, every row with
  nan in column \<open>j\<close> among them; the two are disjoint, together they are the leaf's rows,
  and neither is empty.
\<close>

theorem grow_tree_partition:
  assumes "grow_tree draw self r t k = (Inr True, self', r', t')"
  shows "\<exists>node j sv left right lv rv.
     t k = Some node
     \<and> t' = tree_grow_tree t k (SplitNode k j (Some sv) (idx_data_points node))
              (LeafNode (get_idx_left_child node) lv left)
              (LeafNode (get_idx_right_child node) rv right)
     \<and> get_new_idx_data_points self (SplitNode k j (Some sv) (idx_data_points node))
          = Inr (left, right)
     \<and> left = filter (\<lambda>i. \<exists>v. item (self_X self) i j = Some v \<and> v \<le> sv) (idx_data_points node)
     \<and> right = filter (\<lambda>i. \<not> (\<exists>v. item (self_X self) i j = Some v \<and> v \<le> sv))
                 (idx_data_points node)
     \<and> set left \<inter> set right = {}
     \<and> set left \<union> set right = set (idx_data_points node)
     \<and> length left + length right = length (idx_data_points node)
     \<and> left \<noteq> [] \<and> right \<noteq> []
     \<and> (\<forall>i\<in>set (idx_data_points node). item (self_X self) i j = None \<longrightarrow> i \<in> set right)"
proof -
  from grow_tree_True [OF assms] obtain node ps where
    node: "t k = Some node" and
    ps: "get_available_predictors self (idx_data_points node) = Inr ps" and
    sel: "grow_tree_select draw self r t k node ps = (Inr True, self', r', t')" by blast
  let ?rows = "idx_data_points node"
  from grow_tree_select_True [OF sel] obtain j vals inds sv s2 r2 where
    j: "j \<in> set ps" and
    rules: "get_available_splitting_rules self ?rows j = Inr (vals, inds)" and
    sv: "sv \<in> set vals" and X2: "self_X s2 = self_X self" and
    ch: "grow_tree_children draw s2 r2 t k node j sv = (Inr True, self', r', t')" by blast
  from grow_tree_children_True [OF ch] obtain left right lv rv where
    new: "get_new_idx_data_points s2 (SplitNode k j (Some sv) ?rows) = Inr (left, right)" and
    t': "t' = tree_grow_tree t k (SplitNode k j (Some sv) ?rows)
              (LeafNode (get_idx_left_child node) lv left)
              (LeafNode (get_idx_right_child node) rv right)" by blast
  from available_predictor_data [OF ps j] have
    inr: "\<forall>i\<in>set ?rows. i < shape0 (self_X self)" and jlt: "j < shape1 (self_X self)" by auto
  let ?V = "{v. \<exists>i\<in>set ?rows. item (self_X self) i j = Some v}"
  let ?P = "\<lambda>i. \<exists>v. item (self_X self) i j = Some v \<and> v \<le> sv"
  have P: "fle (item (self_X self) i j) (Some sv) = ?P i" for i
    by (cases "item (self_X self) i j") (simp_all add: fle_def)
  from new have new': "get_new_idx_data_points self (SplitNode k j (Some sv) ?rows) = Inr (left, right)"
    by (simp add: get_new_idx_data_points_cong [OF X2])
  from new' have l: "left = filter ?P ?rows" and rt: "right = filter (\<lambda>i. \<not> ?P i) ?rows"
    by (simp_all add: get_new_idx_data_points_filter [OF inr jlt] P)
  from splitting_rules_below_max [OF inr jlt refl] rules
  have "set vals = {v \<in> ?V. \<exists>w\<in>?V. v < w}" by auto
  with sv obtain w where svV: "sv \<in> ?V" and wV: "w \<in> ?V" and lt: "sv < w" by auto
  from svV obtain a where a: "a \<in> set ?rows" "item (self_X self) a j = Some sv" by auto
  from wV obtain b where b: "b \<in> set ?rows" "item (self_X self) b j = Some w" by auto
  from a have "a \<in> set left" unfolding l by simp
  then have lne: "left \<noteq> []" by auto
  from b lt have "b \<in> set right" unfolding rt by auto
  then have rne: "right \<noteq> []" by auto
  have len: "length left + length right = length ?rows"
    unfolding l rt by (rule sum_length_filter_compl)
  have nan: "\<forall>i\<in>set ?rows. item (self_X self) i j = None \<longrightarrow> i \<in> set right"
    unfolding rt by simp
  have dj: "set left \<inter> set right = {}" unfolding l rt by auto
  have un: "set left \<union> set right = set ?rows" unfolding l rt by auto
  from node t' new' l rt dj un len lne rne nan show ?thesis by blast
qed

lemmas grow_defs = grow_tree_def grow_tree_select_def grow_tree_children_def
  sample_dist_splitting_variable_def sample_dist_splitting_rule_assignment_def
  uniform_sample_def py_pop_def py_int_def
  get_new_idx_data_points_def select_def fle_def
  BART_draw_leaf_value_def get_residuals_def np_subtract_def np_take_def normal_sample_def
  tree_grow_tree_def get_idx_left_child_def get_idx_right_child_def

lemma example_node: "get_node example_tree 0 = Inr (LeafNode 0 (Some (5 / 2)) example_rows)"
  by (simp add: get_node_def example_tree_def init_tree_def)

lemma example_grow:
  "fst (grow_tree (BART_draw_leaf_value example_predict_output) example_engine example_rng
        example_tree 0) = Inr True"
  by (simp add: grow_defs example_node example_predictors example_rules example_fields
      example_columns example_predict_output_def) (simp add: example_rows_def)

lemma example_grow_children:
  "map_option idx_data_points
     (snd (snd (snd (grow_tree (BART_draw_leaf_value example_predict_output) example_engine
        example_rng example_tree 0))) 1) = Some [0, 1]"
  "map_option idx_data_points
     (snd (snd (snd (grow_tree (BART_draw_leaf_value example_predict_output) example_engine
        example_rng example_tree 0))) 2) = Some [2, 3]"
  by (simp_all add: grow_defs example_node example_predictors example_rules example_fields
      example_columns example_predict_output_def) (simp_all add: example_rows_def)

theorem grow_tree_partition_witness:
  "\<exists>s' r' t'. grow_tree (BART_draw_leaf_value example_predict_output) example_engine example_rng
        example_tree 0 = (Inr True, s', r', t')
     \<and> map_option idx_data_points (t' 1) = Some [0, 1]
     \<and> map_option idx_data_points (t' 2) = Some [2, 3]"
proof -
  let ?g = "grow_tree (BART_draw_leaf_value example_predict_output) example_engine example_rng
        example_tree 0"
  obtain s' r' t' where eq: "?g = (Inr True, s', r', t')"
    using example_grow by (cases ?g) auto
  from grow_tree_partition [OF eq] example_grow_children eq show ?thesis by simp
qed

subsection \<open>No available predictor\<close>

text \<open>
  Claim C8. When the rows of the node at the given index admit no available predictor,
  \<open>grow_tree\<close> returns \<open>False\<close>, raises nothing, and leaves the engine (its samplers,
  \<open>sum_trees_output\<close> and every other attribute), the random generator and the tree as
  they were.
\<close>

theorem grow_tree_no_available_predictor:
  assumes "t k = Some node"
    and "get_available_predictors self (idx_data_points node) = Inr []"
  shows "grow_tree draw self r t k = (Inr False, self, r, t)"
  using assms by (simp add: grow_tree_def get_node_def)

theorem grow_tree_no_available_predictor_witness:
  "(init_tree (Some 0) [2] :: real tree) 0 = Some (LeafNode 0 (Some 0) [2])
   \<and> get_available_predictors example_engine
         (idx_data_points (LeafNode 0 (Some 0) [2] :: real node)) = Inr []
   \<and> grow_tree BaseBART_draw_leaf_value example_engine example_rng (init_tree (Some 0) [2]) 0
       = (Inr False, example_engine, example_rng, init_tree (Some 0) [2])"
proof -
  have h1: "(init_tree (Some 0) [2] :: real tree) 0 = Some (LeafNode 0 (Some 0) [2])"
    by (simp add: init_tree_def)
  have "[0..<2] = [0, 1::nat]" by (simp add: upt_rec)
  then have h2: "get_available_predictors example_engine
      (idx_data_points (LeafNode 0 (Some 0) [2] :: real node)) = Inr []"
    by (simp add: get_available_predictors_def example_fields take_column_def example_X_def)
  from grow_tree_no_available_predictor
    [of "init_tree (Some 0) [2]" 0 "LeafNode 0 (Some 0) [2]" example_engine
      BaseBART_draw_leaf_value example_rng, OF h1 h2] h1 h2
  show ?thesis by simp
qed

subsection \<open>After the predictor check\<close>

lemma py_int_scaled_in_range:
  assumes "0 \<le> u" "u < 1" "0 < n"
  shows "0 \<le> py_int (real_of_int 0 + real_of_int (n - 0) * u)
     \<and> py_int (real_of_int 0 + real_of_int (n - 0) * u) < n"
proof -
  have nn: "0 \<le> real_of_int n * u" using assms by simp
  have lt: "real_of_int n * u < real_of_int n" using assms by simp
  have "\<lfloor>real_of_int n * u\<rfloor> < n" using lt by (simp add: floor_less_iff)
  moreover have "0 \<le> \<lfloor>real_of_int n * u\<rfloor>" using nn by simp
  ultimately show ?thesis using nn by (simp add: py_int_def)
qed

lemma uniform_sample_in_range:
  assumes size: "0 < cache_size s"
    and cached: "\<forall>u\<in>set (cache s). 0 \<le> u \<and> u < 1"
    and fresh: "\<forall>m. 0 \<le> uniform_src r m \<and> uniform_src r m < 1"
    and n: "0 < n"
  shows "\<exists>i c r'. uniform_sample s r 0 n = (Inr i, s\<lparr>cache := c\<rparr>, r') \<and> 0 \<le> i \<and> i < n
     \<and> (\<forall>u\<in>set c. 0 \<le> u \<and> u < 1) \<and> uniform_src r' = uniform_src r"
proof (cases "cache s = []")
  case False
  then have l: "last (cache s) \<in> set (cache s)" by simp
  have b: "set (butlast (cache s)) \<subseteq> set (cache s)" by (auto dest: in_set_butlastD)
  have eq: "uniform_sample s r 0 n =
      (Inr (py_int (real_of_int 0 + real_of_int (n - 0) * last (cache s))),
       s\<lparr>cache := butlast (cache s)\<rparr>, r)"
    using False by (simp add: uniform_sample_def py_pop_def)
  show ?thesis
    using eq py_int_scaled_in_range [of "last (cache s)" n] l b cached n by blast
next
  case True
  let ?batch = "map (\<lambda>k. uniform_src r (uniform_pos r + k)) [0..<nat (cache_size s)]"
  let ?r = "r\<lparr>uniform_pos := uniform_pos r + nat (cache_size s)\<rparr>"
  have ne: "?batch \<noteq> []" using size by simp
  have all: "\<forall>u\<in>set ?batch. 0 \<le> u \<and> u < 1" using fresh by auto
  have l: "last ?batch \<in> set ?batch" using ne by (rule last_in_set)
  have b: "set (butlast ?batch) \<subseteq> set ?batch" by (auto dest: in_set_butlastD)
  have eq: "uniform_sample s r 0 n =
      (Inr (py_int (real_of_int 0 + real_of_int (n - 0) * last ?batch)),
       s\<lparr>cache := butlast ?batch\<rparr>, ?r)"
    using True size ne
    by (simp add: uniform_sample_def uniform_refresh_cache_def np_random_random_def py_pop_def)
  have src: "uniform_src ?r = uniform_src r" by simp
  show ?thesis
    using eq py_int_scaled_in_range [of "last ?batch" n] l b all n src by blast
qed

lemma py_index_in_range:
  "0 \<le> i \<Longrightarrow> i < int (length xs) \<Longrightarrow> py_index xs i = Inr (xs ! nat i) \<and> xs ! nat i \<in> set xs"
  by (simp add: Let_def)

lemma available_predictor_rules_nonempty:
  assumes ps: "get_available_predictors self rows = Inr ps" and j: "j \<in> set ps"
  shows "\<exists>vals inds. get_available_splitting_rules self rows j = Inr (vals, inds) \<and> vals \<noteq> []
     \<and> set vals = {v \<in> {v. \<exists>i\<in>set rows. item (self_X self) i j = Some v}.
          \<exists>w\<in>{v. \<exists>i\<in>set rows. item (self_X self) i j = Some v}. v < w}"
proof -
  let ?V = "{v. \<exists>i\<in>set rows. item (self_X self) i j = Some v}"
  from available_predictor_data [OF ps j] have
    inr: "\<forall>i\<in>set rows. i < shape0 (self_X self)" and jlt: "j < shape1 (self_X self)"
    and two: "2 \<le> card ?V" by auto
  have fin: "finite ?V"
    using column_values [of "self_X self" j rows, symmetric] by (metis List.finite_set)
  from two have "2 \<le> length (sorted_list_of_set ?V)" by simp
  then have "butlast (sorted_list_of_set ?V) \<noteq> []"
    by (cases "sorted_list_of_set ?V") (auto split: if_splits)
  with splitting_rules_below_max [OF inr jlt refl] show ?thesis by auto
qed

lemma split_rows_nonempty:
  assumes inr: "\<forall>i\<in>set rows. i < shape0 (self_X self)" and jlt: "j < shape1 (self_X self)"
    and sv: "sv \<in> {v \<in> {v. \<exists>i\<in>set rows. item (self_X self) i j = Some v}.
          \<exists>w\<in>{v. \<exists>i\<in>set rows. item (self_X self) i j = Some v}. v < w}"
  shows "\<exists>left right. get_new_idx_data_points self (SplitNode k j (Some sv) rows) = Inr (left, right)
     \<and> left \<noteq> [] \<and> right \<noteq> [] \<and> set left \<subseteq> set rows \<and> set right \<subseteq> set rows"
proof -
  let ?P = "\<lambda>i. fle (item (self_X self) i j) (Some sv)"
  from sv obtain a w b where a: "a \<in> set rows" "item (self_X self) a j = Some sv"
    and b: "b \<in> set rows" "item (self_X self) b j = Some w" and lt: "sv < w" by auto
  from a have "?P a" by (simp add: fle_def)
  with a(1) have l: "filter ?P rows \<noteq> []"
    unfolding filter_empty_conv by blast
  from b lt have "\<not> ?P b" by (simp add: fle_def)
  with b(1) have r: "filter (\<lambda>i. \<not> ?P i) rows \<noteq> []"
    unfolding filter_empty_conv by blast
  from get_new_idx_data_points_filter [OF inr jlt, of k "Some sv"] l r show ?thesis by auto
qed

lemma sample_dist_splitting_variable_in_range:
  assumes size: "0 < cache_size (discrete_uniform_distribution_sampler self)"
    and cached: "\<forall>u\<in>set (cache (discrete_uniform_distribution_sampler self)). 0 \<le> u \<and> u < 1"
    and fresh: "\<forall>m. 0 \<le> uniform_src r m \<and> uniform_src r m < 1"
    and n: "0 < n"
  shows "\<exists>i s' r' c. sample_dist_splitting_variable self r n = (Inr i, s', r')
     \<and> 0 \<le> i \<and> i < n
     \<and> s' = self\<lparr>discrete_uniform_distribution_sampler := c\<rparr>
     \<and> 0 < cache_size (discrete_uniform_distribution_sampler s')
     \<and> (\<forall>u\<in>set (cache (discrete_uniform_distribution_sampler s')). 0 \<le> u \<and> u < 1)
     \<and> (\<forall>m. 0 \<le> uniform_src r' m \<and> uniform_src r' m < 1)"
proof -
  from uniform_sample_in_range [OF size cached fresh n] obtain i c r' where
    "uniform_sample (discrete_uniform_distribution_sampler self) r 0 n =
       (Inr i, (discrete_uniform_distribution_sampler self)\<lparr>cache := c\<rparr>, r')"
    "0 \<le> i" "i < n" "\<forall>u\<in>set c. 0 \<le> u \<and> u < 1" "uniform_src r' = uniform_src r" by blast
  then show ?thesis
    using size fresh
    by (intro exI [of _ i]
        exI [of _ "self\<lparr>discrete_uniform_distribution_sampler :=
                  (discrete_uniform_distribution_sampler self)\<lparr>cache := c\<rparr>\<rparr>"]
        exI [of _ r'] exI [of _ "(discrete_uniform_distribution_sampler self)\<lparr>cache := c\<rparr>"])
      (simp add: sample_dist_splitting_variable_def)
qed

lemma sample_dist_splitting_rule_assignment_in_range:
  assumes size: "0 < cache_size (discrete_uniform_distribution_sampler self)"
    and cached: "\<forall>u\<in>set (cache (discrete_uniform_distribution_sampler self)). 0 \<le> u \<and> u < 1"
    and fresh: "\<forall>m. 0 \<le> uniform_src r m \<and> uniform_src r m < 1"
    and n: "0 < n"
  shows "\<exists>i s' r' c. sample_dist_splitting_rule_assignment self r n = (Inr i, s', r')
     \<and> 0 \<le> i \<and> i < n
     \<and> s' = self\<lparr>discrete_uniform_distribution_sampler := c\<rparr>"
proof -
  from uniform_sample_in_range [OF size cached fresh n] obtain i c r' where
    "uniform_sample (discrete_uniform_distribution_sampler self) r 0 n =
       (Inr i, (discrete_uniform_distribution_sampler self)\<lparr>cache := c\<rparr>, r')"
    "0 \<le> i" "i < n" by blast
  then show ?thesis
    by (intro exI [of _ i]
        exI [of _ "self\<lparr>discrete_uniform_distribution_sampler :=
                  (discrete_uniform_distribution_sampler self)\<lparr>cache := c\<rparr>\<rparr>"]
        exI [of _ r'] exI [of _ "(discrete_uniform_distribution_sampler self)\<lparr>cache := c\<rparr>"])
      (simp add: sample_dist_splitting_rule_assignment_def)
qed

text \<open>
  Claim C10. Let the predictor check of \<open>grow_tree\<close> succeed with the non-empty list
  \<open>ps\<close>. Every predictor of \<open>ps\<close> has at least one splitting rule. With a uniform
  sampler that can deliver (a positive cache size, cached and fresh base uniforms in
  \<open>[0, 1)\<close>), the two sampled indices are within the bounds of the list they index, so
  both selections succeed. If moreover the \<open>draw_leaf_value\<close> the engine dispatches
  to returns on non-empty rows of the leaf, in every state \<open>Inv\<close> describes, then
  \<open>grow_tree\<close> returns \<open>True\<close>. The facts \<open>BART_draw_leaf_value_ready\<close> and
  \<open>ConjugateBART_draw_leaf_value_ready\<close> give such an \<open>Inv\<close> for the two concrete
  engines.
\<close>

theorem grow_tree_after_predictor_check:
  fixes Inv :: "('a::linorder, 'z) BaseBART_scheme \<Rightarrow> bool"
  assumes leaf: "t k = Some node"
    and ps: "get_available_predictors self (idx_data_points node) = Inr ps" and ne: "ps \<noteq> []"
    and size: "0 < cache_size (discrete_uniform_distribution_sampler self)"
    and cached: "\<forall>u\<in>set (cache (discrete_uniform_distribution_sampler self)). 0 \<le> u \<and> u < 1"
    and fresh: "\<forall>n. 0 \<le> uniform_src r n \<and> uniform_src r n < 1"
    and inv: "Inv self"
    and inv_uniform: "\<And>s c. Inv s \<Longrightarrow> Inv (s\<lparr>discrete_uniform_distribution_sampler := c\<rparr>)"
    and draw_ok: "\<And>s r0 idx. Inv s \<Longrightarrow> idx \<noteq> [] \<Longrightarrow> set idx \<subseteq> set (idx_data_points node) \<Longrightarrow>
        \<exists>v s1 r1. draw s r0 t idx = (Inr v, s1, r1) \<and> Inv s1"
  shows "(\<forall>j\<in>set ps. \<exists>vals inds.
            get_available_splitting_rules self (idx_data_points node) j = Inr (vals, inds)
            \<and> vals \<noteq> [])
     \<and> (\<exists>i1 s1 r1 j vals inds i2 s2 r2 sv.
            sample_dist_splitting_variable self r (int (length ps)) = (Inr i1, s1, r1)
            \<and> 0 \<le> i1 \<and> i1 < int (length ps) \<and> py_index ps i1 = Inr j
            \<and> get_available_splitting_rules s1 (idx_data_points node) j = Inr (vals, inds)
            \<and> sample_dist_splitting_rule_assignment s1 r1 (int (length vals)) = (Inr i2, s2, r2)
            \<and> 0 \<le> i2 \<and> i2 < int (length vals) \<and> py_index vals i2 = Inr sv)
     \<and> (\<exists>s' r' t'. grow_tree draw self r t k = (Inr True, s', r', t'))"
proof -
  let ?rows = "idx_data_points node"
  have A: "\<forall>j\<in>set ps. \<exists>vals inds.
      get_available_splitting_rules self ?rows j = Inr (vals, inds) \<and> vals \<noteq> []"
    using available_predictor_rules_nonempty [OF ps] by blast
  from ne have n1: "0 < int (length ps)" by simp
  from sample_dist_splitting_variable_in_range [OF size cached fresh n1]
  obtain i1 s1 r1 c1 where
    s1: "sample_dist_splitting_variable self r (int (length ps)) = (Inr i1, s1, r1)"
    and i1: "0 \<le> i1" "i1 < int (length ps)"
    and s1eq: "s1 = self\<lparr>discrete_uniform_distribution_sampler := c1\<rparr>"
    and size1: "0 < cache_size (discrete_uniform_distribution_sampler s1)"
    and cached1: "\<forall>u\<in>set (cache (discrete_uniform_distribution_sampler s1)). 0 \<le> u \<and> u < 1"
    and fresh1: "\<forall>n. 0 \<le> uniform_src r1 n \<and> uniform_src r1 n < 1" by blast
  from py_index_in_range [OF i1] obtain j where
    j: "py_index ps i1 = Inr j" and jps: "j \<in> set ps" by blast
  from available_predictor_rules_nonempty [OF ps jps] obtain vals inds where
    rules: "get_available_splitting_rules self ?rows j = Inr (vals, inds)" and vne: "vals \<noteq> []"
    and vset: "set vals = {v \<in> {v. \<exists>i\<in>set ?rows. item (self_X self) i j = Some v}.
          \<exists>w\<in>{v. \<exists>i\<in>set ?rows. item (self_X self) i j = Some v}. v < w}" by blast
  have X1: "self_X s1 = self_X self" unfolding s1eq by simp
  have inv1: "Inv s1" unfolding s1eq by (rule inv_uniform [OF inv])
  have rules1: "get_available_splitting_rules s1 ?rows j = Inr (vals, inds)"
    by (subst get_available_splitting_rules_cong [OF X1]) (rule rules)
  from vne have n2: "0 < int (length vals)" by simp
  from sample_dist_splitting_rule_assignment_in_range [OF size1 cached1 fresh1 n2]
  obtain i2 s2 r2 c2 where
    s2: "sample_dist_splitting_rule_assignment s1 r1 (int (length vals)) = (Inr i2, s2, r2)"
    and i2: "0 \<le> i2" "i2 < int (length vals)"
    and s2eq: "s2 = s1\<lparr>discrete_uniform_distribution_sampler := c2\<rparr>" by blast
  from py_index_in_range [OF i2] obtain sv where
    sv: "py_index vals i2 = Inr sv" and svv: "sv \<in> set vals" by blast
  have B: "\<exists>i1 s1 r1 j vals inds i2 s2 r2 sv.
            sample_dist_splitting_variable self r (int (length ps)) = (Inr i1, s1, r1)
            \<and> 0 \<le> i1 \<and> i1 < int (length ps) \<and> py_index ps i1 = Inr j
            \<and> get_available_splitting_rules s1 ?rows j = Inr (vals, inds)
            \<and> sample_dist_splitting_rule_assignment s1 r1 (int (length vals)) = (Inr i2, s2, r2)
            \<and> 0 \<le> i2 \<and> i2 < int (length vals) \<and> py_index vals i2 = Inr sv"
    using s1 i1 j rules1 s2 i2 sv by blast
  from available_predictor_data [OF ps jps] have
    inr: "\<forall>i\<in>set ?rows. i < shape0 (self_X self)" and jlt: "j < shape1 (self_X self)" by auto
  from split_rows_nonempty [OF inr jlt svv [unfolded vset], of k] obtain left right where
    new: "get_new_idx_data_points self (SplitNode k j (Some sv) ?rows) = Inr (left, right)"
    and lne: "left \<noteq> []" and rne: "right \<noteq> []"
    and lsub: "set left \<subseteq> set ?rows" and rsub: "set right \<subseteq> set ?rows" by blast
  have X2: "self_X s2 = self_X self" unfolding s2eq using X1 by simp
  have new2: "get_new_idx_data_points s2 (SplitNode k j (Some sv) ?rows) = Inr (left, right)"
    by (subst get_new_idx_data_points_cong [OF X2]) (rule new)
  have inv2: "Inv s2" unfolding s2eq by (rule inv_uniform [OF inv1])
  from draw_ok [OF inv2 lne lsub] obtain lv s3 r3 where
    d1: "draw s2 r2 t left = (Inr lv, s3, r3)" and inv3: "Inv s3" by blast
  from draw_ok [OF inv3 rne rsub] obtain rv s4 r4 where
    d2: "draw s3 r3 t right = (Inr rv, s4, r4)" by blast
  have ch: "grow_tree_children draw s2 r2 t k node j sv =
      (Inr True, s4, r4,
       tree_grow_tree t k (SplitNode k j (Some sv) ?rows)
         (LeafNode (get_idx_left_child node) lv left)
         (LeafNode (get_idx_right_child node) rv right))"
    unfolding grow_tree_children_def Let_def by (simp add: new2 d1 d2)
  have sel: "grow_tree_select draw self r t k node ps =
      grow_tree_children draw s2 r2 t k node j sv"
    unfolding grow_tree_select_def by (simp add: s1 j rules1 s2 sv del: py_index.simps)
  have "grow_tree draw self r t k = grow_tree_select draw self r t k node ps"
    unfolding grow_tree_def by (simp add: get_node_def leaf ps ne)
  with sel ch have C: "\<exists>s' r' t'. grow_tree draw self r t k = (Inr True, s', r', t')" by simp
  from A B C show ?thesis by blast
qed

lemma normal_sample_returns:
  assumes "0 < cache_size s"
  shows "\<exists>z c r'. normal_sample s r = (Inr z, s\<lparr>cache := c\<rparr>, r')"
proof (cases "cache s = []")
  case False
  then show ?thesis by (simp add: normal_sample_def py_pop_def) blast
next
  case True
  have "map (\<lambda>k. normal_src r (normal_pos r + k)) [0..<nat (cache_size s)] \<noteq> []"
    using assms by simp
  then show ?thesis
    using True assms
    by (simp add: normal_sample_def normal_refresh_cache_def np_random_normal_def py_pop_def)
      blast
qed

lemma residuals_returns:
  assumes len: "length (sum_trees_output s) = length (predict_output t (num_observations s))"
    and idx: "\<forall>i\<in>set idx. i < length (sum_trees_output s)"
  shows "\<exists>R nr. get_residuals predict_output s t = Inr R \<and> np_take R idx = Inr nr"
proof -
  let ?R = "map (\<lambda>(x, y). fsub x y)
      (zip (sum_trees_output s) (predict_output t (num_observations s)))"
  have res: "get_residuals predict_output s t = Inr ?R"
    using len by (simp add: get_residuals_def np_subtract_def)
  have "length ?R = length (sum_trees_output s)" using len by simp
  then have "np_take ?R idx = Inr (map (\<lambda>i. ?R ! i) idx)"
    using idx unfolding np_take_def list_all_iff by presburger
  with res show ?thesis by blast
qed

lemma BART_draw_leaf_value_returns:
  assumes len: "length (sum_trees_output s) = length (predict_output t (num_observations s))"
    and idx: "\<forall>i\<in>set idx. i < length (sum_trees_output s)"
    and size: "0 < cache_size (normal_distribution_sampler s)"
  shows "\<exists>v c r'. BART_draw_leaf_value predict_output s r t idx =
     (Inr v, s\<lparr>normal_distribution_sampler := (normal_distribution_sampler s)\<lparr>cache := c\<rparr>\<rparr>, r')"
proof -
  from normal_sample_returns [OF size, of r] obtain z c r' where
    ns: "normal_sample (normal_distribution_sampler s) r =
       (Inr z, (normal_distribution_sampler s)\<lparr>cache := c\<rparr>, r')" by blast
  from residuals_returns [where predict_output = predict_output and t = t, OF len idx]
  obtain R nr where
    res: "get_residuals predict_output s t = Inr R" and tk: "np_take R idx = Inr nr" by blast
  have "BART_draw_leaf_value predict_output s r t idx =
      (Inr (fadd (fdiv (np_sum nr) (Some (real (length idx)))) (fmul (Some z) (fsqrt (np_var nr)))),
       s\<lparr>normal_distribution_sampler := (normal_distribution_sampler s)\<lparr>cache := c\<rparr>\<rparr>, r')"
    unfolding BART_draw_leaf_value_def Let_def by (simp add: res tk ns)
  then show ?thesis by blast
qed

lemma ConjugateBART_draw_leaf_value_returns:
  assumes len: "length (sum_trees_output s) = length (predict_output t (num_observations s))"
    and idx: "\<forall>i\<in>set idx. i < length (sum_trees_output s)" and ne: "idx \<noteq> []"
    and sigma: "current_sigma s \<noteq> 0"
    and size: "0 < cache_size (normal_distribution_sampler s)"
  shows "\<exists>v c r'. ConjugateBART_draw_leaf_value predict_output s r t idx =
     (Inr v, s\<lparr>normal_distribution_sampler := (normal_distribution_sampler s)\<lparr>cache := c\<rparr>\<rparr>, r')"
proof -
  from normal_sample_returns [OF size, of r] obtain z c r' where
    ns: "normal_sample (normal_distribution_sampler s) r =
       (Inr z, (normal_distribution_sampler s)\<lparr>cache := c\<rparr>, r')" by blast
  from residuals_returns [where predict_output = predict_output and t = t, OF len idx]
  obtain R nr where
    res: "get_residuals predict_output s t = Inr R" and tk: "np_take R idx = Inr nr" by blast
  have "\<exists>v. ConjugateBART_draw_leaf_value predict_output s r t idx =
      (Inr v,
       s\<lparr>normal_distribution_sampler := (normal_distribution_sampler s)\<lparr>cache := c\<rparr>\<rparr>, r')"
    unfolding ConjugateBART_draw_leaf_value_def Let_def using ne sigma by (simp add: res tk ns)
  then show ?thesis by blast
qed

lemma draw_ready_uniform:
  "draw_ready n s \<Longrightarrow> draw_ready n (s\<lparr>discrete_uniform_distribution_sampler := c\<rparr>)"
  by (simp add: draw_ready_def)

lemma BART_draw_leaf_value_ready:
  assumes ready: "draw_ready n s" and po: "length (predict_output t n) = n"
    and idx: "\<forall>i\<in>set idx. i < n"
  shows "\<exists>v s1 r1. BART_draw_leaf_value predict_output s r t idx = (Inr v, s1, r1)
     \<and> draw_ready n s1"
proof -
  have len: "length (sum_trees_output s) = length (predict_output t (num_observations s))"
    using ready po by (simp add: draw_ready_def)
  have idx': "\<forall>i\<in>set idx. i < length (sum_trees_output s)"
    using ready idx by (simp add: draw_ready_def)
  have size: "0 < cache_size (normal_distribution_sampler s)"
    using ready by (simp add: draw_ready_def)
  from BART_draw_leaf_value_returns
    [where predict_output = predict_output and t = t and s = s and idx = idx and r = r,
      OF len idx' size]
  obtain v c r' where
    eq: "BART_draw_leaf_value predict_output s r t idx =
      (Inr v, s\<lparr>normal_distribution_sampler := (normal_distribution_sampler s)\<lparr>cache := c\<rparr>\<rparr>, r')"
    by blast
  have "draw_ready n (s\<lparr>normal_distribution_sampler := (normal_distribution_sampler s)\<lparr>cache := c\<rparr>\<rparr>)"
    using ready by (simp add: draw_ready_def)
  with eq show ?thesis by blast
qed

lemma ConjugateBART_draw_leaf_value_ready:
  assumes ready: "conjugate_draw_ready n s" and po: "length (predict_output t n) = n"
    and idx: "\<forall>i\<in>set idx. i < n" and ne: "idx \<noteq> []"
  shows "\<exists>v s1 r1. ConjugateBART_draw_leaf_value predict_output s r t idx = (Inr v, s1, r1)
     \<and> conjugate_draw_ready n s1"
proof -
  have len: "length (sum_trees_output s) = length (predict_output t (num_observations s))"
    using ready po by (simp add: conjugate_draw_ready_def draw_ready_def)
  have idx': "\<forall>i\<in>set idx. i < length (sum_trees_output s)"
    using ready idx by (simp add: conjugate_draw_ready_def draw_ready_def)
  have size: "0 < cache_size (normal_distribution_sampler s)"
    using ready by (simp add: conjugate_draw_ready_def draw_ready_def)
  have sigma: "current_sigma s \<noteq> 0"
    using ready by (simp add: conjugate_draw_ready_def)
  from ConjugateBART_draw_leaf_value_returns
    [where predict_output = predict_output and t = t and s = s and idx = idx and r = r,
      OF len idx' ne sigma size]
  obtain v c r' where
    eq: "ConjugateBART_draw_leaf_value predict_output s r t idx =
      (Inr v, s\<lparr>normal_distribution_sampler := (normal_distribution_sampler s)\<lparr>cache := c\<rparr>\<rparr>, r')"
    by blast
  have "conjugate_draw_ready n
      (s\<lparr>normal_distribution_sampler := (normal_distribution_sampler s)\<lparr>cache := c\<rparr>\<rparr>)"
    using ready by (simp add: conjugate_draw_ready_def draw_ready_def)
  with eq show ?thesis by blast
qed

lemma conjugate_draw_ready_uniform:
  "conjugate_draw_ready n s \<Longrightarrow>
     conjugate_draw_ready n (s\<lparr>discrete_uniform_distribution_sampler := c\<rparr>)"
  by (simp add: conjugate_draw_ready_def draw_ready_def)

lemma example_draw_ok:
  assumes "draw_ready 4 s" and "idx \<noteq> []"
    and "set idx \<subseteq> set (idx_data_points (LeafNode 0 (Some (5 / 2)) example_rows :: real node))"
  shows "\<exists>v s1 r1. BART_draw_leaf_value example_predict_output s r0 example_tree idx
        = (Inr v, s1, r1) \<and> draw_ready 4 s1"
proof -
  have po: "length (example_predict_output example_tree 4) = 4"
    by (simp add: example_predict_output_def)
  have idx: "\<forall>i\<in>set idx. i < 4"
    using assms(3) by (auto simp: example_rows_def)
  show ?thesis
    by (rule BART_draw_leaf_value_ready
        [where predict_output = example_predict_output and t = example_tree and n = 4,
          OF assms(1) po idx])
qed

theorem grow_tree_after_predictor_check_witness:
  "example_tree 0 = Some (LeafNode 0 (Some (5 / 2)) example_rows)
   \<and> get_available_predictors example_engine example_rows = Inr [0]
   \<and> 0 < cache_size (discrete_uniform_distribution_sampler example_engine)
   \<and> list_all (\<lambda>u. 0 \<le> u \<and> u < 1) (cache (discrete_uniform_distribution_sampler example_engine))
   \<and> (\<exists>vals inds. get_available_splitting_rules example_engine example_rows 0 = Inr (vals, inds)
         \<and> vals \<noteq> [])
   \<and> (\<exists>s' r' t'. grow_tree (BART_draw_leaf_value example_predict_output) example_engine
         example_rng example_tree 0 = (Inr True, s', r', t'))"
proof -
  let ?node = "LeafNode 0 (Some (5 / 2)) example_rows :: real node"
  have leaf: "example_tree 0 = Some ?node"
    by (simp add: example_tree_def init_tree_def)
  have ps: "get_available_predictors example_engine (idx_data_points ?node) = Inr [0]"
    by (simp add: example_predictors)
  have ne: "[0::nat] \<noteq> []" by simp
  have size: "0 < cache_size (discrete_uniform_distribution_sampler example_engine)"
    by (simp add: example_fields)
  have cached: "\<forall>u\<in>set (cache (discrete_uniform_distribution_sampler example_engine)). 0 \<le> u \<and> u < 1"
    by (simp add: example_fields)
  have fresh: "\<forall>n. 0 \<le> uniform_src example_rng n \<and> uniform_src example_rng n < 1"
    by (simp add: example_rng_def)
  have inv: "draw_ready 4 example_engine" by (simp add: draw_ready_def example_fields)
  note T = grow_tree_after_predictor_check
    [where t = example_tree and k = 0 and node = ?node and self = example_engine
      and ps = "[0]" and r = example_rng and Inv = "draw_ready 4"
      and draw = "BART_draw_leaf_value example_predict_output",
      OF leaf ps ne size cached fresh inv draw_ready_uniform example_draw_ok]
  have A: "\<exists>vals inds. get_available_splitting_rules example_engine example_rows 0 = Inr (vals, inds)
         \<and> vals \<noteq> []"
    using T [THEN conjunct1] by simp
  have C: "\<exists>s' r' t'. grow_tree (BART_draw_leaf_value example_predict_output) example_engine
         example_rng example_tree 0 = (Inr True, s', r', t')"
    by (rule T [THEN conjunct2, THEN conjunct2])
  have cached': "list_all (\<lambda>u. 0 \<le> u \<and> u < 1)
      (cache (discrete_uniform_distribution_sampler example_engine))"
    using cached by (simp add: list_all_iff)
  from leaf example_predictors size cached' A C show ?thesis by blast
qed

subsection \<open>What the constructor builds, and the transform of the response\<close>

lemma BaseBART_build_fields:
  assumes "BaseBART_build Xm Yv m alpha beta ts tr cs = Inr self"
  shows "Yv \<noteq> [] \<and> self_X self = Xm \<and> self_Y self = Yv \<and> transform self = tr
     \<and> num_observations self = shape0 Xm \<and> number_variates self = shape1 Xm
     \<and> Y_min self = Min (set Yv) \<and> Y_max self = Max (set Yv)
     \<and> Y_transf_max_Y_transf_min_half_diff self =
          (if tr = Some ''regression'' then 0.5
           else if tr = Some ''classification'' then 3.0
           else (Max (set Yv) - Min (set Yv)) / 2)
     \<and> Y_transformed self = transform_Y self (map Some Yv)
     \<and> self_m self = m
     \<and> normal_distribution_sampler self = new_sampler cs
     \<and> discrete_uniform_distribution_sampler self = new_sampler cs
     \<and> sum_trees_output self = map (\<lambda>y. Some 0) Yv
     \<and> length (trees self) = nat m"
  using assms
  by (auto simp: BaseBART_build_def Let_def transform_Y_def split: if_splits)

lemma BaseBART_check_params_Inr:
  assumes "BaseBART_check_params a Xm Yv cs = Inr self"
  shows "\<exists>m alpha beta ts tr. BaseBART_build Xm Yv m alpha beta ts tr cs = Inr self
     \<and> 1 \<le> m \<and> (tr = None \<or> tr = Some ''regression'' \<or> tr = Some ''classification'')
     \<and> tr = (case arg_transform a of PyStr s \<Rightarrow> Some s | v \<Rightarrow> None)
     \<and> isinstance_int (arg_m a) = Some m"
  using assms
  by (fastforce simp: BaseBART_check_params_def not_less
      split: option.splits if_splits pyval.splits)

lemma BaseBART_init_Inr:
  assumes "BaseBART_init a cs = Inr self"
  shows "\<exists>Xm Yv. arg_X a = Ndarray Float64 (Array2 Xm) \<and> arg_Y a = Ndarray Float64 (Array1 Yv)
     \<and> shape0 Xm = length Yv \<and> BaseBART_check_params a Xm Yv cs = Inr self"
  using assms
  by (auto simp: BaseBART_init_def split: if_splits pyarray.splits dtype.splits ndarray.splits)

lemma BaseBART_init_transform:
  assumes "BaseBART_init a cs = Inr self"
  shows "self_Y self \<noteq> []
     \<and> Y_min self = Min (set (self_Y self)) \<and> Y_max self = Max (set (self_Y self))
     \<and> (transform self = None \<or> transform self = Some ''regression''
          \<or> transform self = Some ''classification'')
     \<and> Y_transf_max_Y_transf_min_half_diff self =
          (if transform self = Some ''regression'' then 0.5
           else if transform self = Some ''classification'' then 3.0
           else (Y_max self - Y_min self) / 2)
     \<and> Y_transformed self = transform_Y self (map Some (self_Y self))
     \<and> arg_Y a = Ndarray Float64 (Array1 (self_Y self))
     \<and> transform self = (case arg_transform a of PyStr s \<Rightarrow> Some s | v \<Rightarrow> None)"
proof -
  from BaseBART_init_Inr [OF assms] obtain Xm Yv where
    Y: "arg_Y a = Ndarray Float64 (Array1 Yv)"
    and c: "BaseBART_check_params a Xm Yv cs = Inr self" by blast
  from BaseBART_check_params_Inr [OF c] obtain m alpha beta ts tr where
    b: "BaseBART_build Xm Yv m alpha beta ts tr cs = Inr self"
    and tr: "tr = None \<or> tr = Some ''regression'' \<or> tr = Some ''classification''"
    and tr': "tr = (case arg_transform a of PyStr s \<Rightarrow> Some s | v \<Rightarrow> None)" by blast
  from BaseBART_build_fields [OF b] tr tr' Y show ?thesis by auto
qed

lemma transform_Y_roundtrip_real:
  fixes y mn mx h :: real
  assumes "mx \<noteq> mn" and "h \<noteq> 0"
  shows "((y - mn) / (mx - mn) * (h * 2) - h + h) * (mx - mn) / (h * 2) + mn = y"
  using assms by (simp add: field_simps)

lemma un_transform_Y_exact_round_trip:
  assumes init: "BaseBART_init a cs = Inr self" and ne: "Y_max self \<noteq> Y_min self"
  shows "un_transform_Y self (transform_Y self (map Some ys)) = map Some ys"
proof (cases "truthy (transform self)")
  case False
  then show ?thesis by (simp add: un_transform_Y_def transform_Y_def)
next
  case True
  let ?h = "Y_transf_max_Y_transf_min_half_diff self"
  from BaseBART_init_transform [OF init] True have h: "?h \<noteq> 0"
    by (auto simp: truthy_def)
  have d: "Y_max self - Y_min self \<noteq> 0" using ne by simp
  have "un_transform_Y self (transform_Y self (map Some ys)) =
      map (\<lambda>y. Some (((y - Y_min self) / (Y_max self - Y_min self) * (?h * 2) - ?h + ?h)
                      * (Y_max self - Y_min self) / (?h * 2) + Y_min self)) ys"
    using True h d
    by (simp add: un_transform_Y_def transform_Y_def fadd_def fsub_def fmul_def fdiv_def
        lift2_def o_def)
  also have "\<dots> = map Some ys"
    using transform_Y_roundtrip_real [OF ne h] by simp
  finally show ?thesis .
qed

text \<open>
  Claim C2, amended. For an engine the constructor has built from a response whose
  largest and smallest values differ, whatever the transform mode, \<open>un_transform_Y\<close>
  and \<open>transform_Y\<close> are inverse to each other as maps of real numbers: computed
  exactly, \<open>un_transform_Y(transform_Y(Y))\<close> is \<open>Y\<close> for any values. Computed in float64,
  the round trip is exact without a transform, where both methods return their
  argument.
\<close>

theorem un_transform_Y_inverts_transform_Y:
  assumes init: "BaseBART_init a cs = Inr self" and ne: "Y_max self \<noteq> Y_min self"
  shows "un_transform_Y self (transform_Y self (map Some ys)) = map Some ys
     \<and> (transform self = None \<longrightarrow>
          un_transform_Y_float64 self (transform_Y_float64 self zs) = zs)"
  using un_transform_Y_exact_round_trip [OF init ne]
  by (simp add: un_transform_Y_float64_def transform_Y_float64_def truthy_def)

lemma BART_init_example: "BART_init example_args = Inr example_built"
proof -
  have u: "[0..<4] = [0, 1, 2, 3::nat]" by (simp add: upt_rec)
  show ?thesis
    by (simp add: BART_init_def BaseBART_init_def BaseBART_check_params_def BaseBART_build_def
        example_args_def example_built_def example_X_def example_rows_def fle_def flt_def
        transform_Y_def truthy_def new_sampler_def np_mean_def np_sum_def np_std_def np_var_def
        fdiv_def fadd_def fsub_def fmul_def fsqrt_def lift2_def init_tree_def u Let_def)
qed

lemma BaseBART_init_regression_example:
  "\<exists>self. BaseBART_init example_regression_args 5000 = Inr self"
  by (simp add: BaseBART_init_def BaseBART_check_params_def BaseBART_build_def
      example_regression_args_def example_args_def example_X_def fle_def flt_def Let_def)

theorem un_transform_Y_inverts_transform_Y_witness:
  "(\<exists>self. BaseBART_init example_regression_args 5000 = Inr self
      \<and> Y_max self \<noteq> Y_min self
      \<and> transform_Y self [Some 7] = [Some (3 / 2)]
      \<and> un_transform_Y self (transform_Y self (map Some [7])) = map Some [7])
   \<and> BaseBART_init example_args 5000 = Inr example_built
   \<and> Y_max example_built \<noteq> Y_min example_built
   \<and> transform example_built = None
   \<and> un_transform_Y_float64 example_built (transform_Y_float64 example_built [Some 7]) = [Some 7]"
proof -
  from BaseBART_init_regression_example obtain self where
    init: "BaseBART_init example_regression_args 5000 = Inr self" by blast
  note F = BaseBART_init_transform [OF init]
  from F have Y: "self_Y self = [1, 2, 3, 4]"
    by (simp add: example_regression_args_def example_args_def)
  from F have T: "transform self = Some ''regression''"
    by (simp add: example_regression_args_def example_args_def)
  from F Y T have f: "Y_min self = 1" "Y_max self = 4"
      "Y_transf_max_Y_transf_min_half_diff self = 1 / 2"
    by simp_all
  note f = f T
  have ne: "Y_max self \<noteq> Y_min self" using f by simp
  have tr: "transform_Y self [Some 7] = [Some (3 / 2)]"
    using f by (simp add: transform_Y_def truthy_def fsub_def fmul_def fdiv_def lift2_def)
  from un_transform_Y_inverts_transform_Y [OF init ne, of "[7]"] init ne tr have A:
    "\<exists>self. BaseBART_init example_regression_args 5000 = Inr self
      \<and> Y_max self \<noteq> Y_min self
      \<and> transform_Y self [Some 7] = [Some (3 / 2)]
      \<and> un_transform_Y self (transform_Y self (map Some [7])) = map Some [7]"
    by blast
  have init': "BaseBART_init example_args 5000 = Inr example_built"
    using BART_init_example by (simp add: BART_init_def)
  have ne': "Y_max example_built \<noteq> Y_min example_built"
    by (simp add: example_built_def)
  have none: "transform example_built = None" by (simp add: example_built_def)
  from un_transform_Y_inverts_transform_Y [OF init' ne', of "[]" "[Some 7]"] none have B:
    "un_transform_Y_float64 example_built (transform_Y_float64 example_built [Some 7]) = [Some 7]"
    by simp
  from A init' ne' none B show ?thesis by blast
qed

subsection \<open>The round trip in float64\<close>

lemma binade_numeral:
  "binade (numeral k) x e =
     (if x < 1 then binade (pred_numeral k) (x * 2) (e - 1)
      else if 2 \<le> x then binade (pred_numeral k) (x / 2) (e + 1)
      else e)"
  by (simp add: numeral_eq_Suc)

lemma sqrt_ninth: "sqrt (1 / 9) = 1 / 3"
  by (rule real_sqrt_unique) (simp_all add: power2_eq_square)

lemma BART_init_seven: "BART_init example_seven_args = Inr example_seven_built"
proof -
  have u: "[0..<7] = [0, 1, 2, 3, 4, 5, 6::nat]" by (simp add: upt_rec)
  show ?thesis
    by (simp add: BART_init_def BaseBART_init_def BaseBART_check_params_def BaseBART_build_def
        example_seven_args_def example_seven_built_def fle_def flt_def
        transform_Y_def truthy_def new_sampler_def np_mean_def np_sum_def np_std_def np_var_def
        fdiv_def fadd_def fsub_def fmul_def fsqrt_def lift2_def init_tree_def u Let_def
        sqrt_ninth)
qed

lemmas round_defs = round_float64_def binade_numeral pow2_def round_half_even_def
  radd_def rsub_def rmul_def rdiv_def

text \<open>
  Claim C2 as stated fails in float64. For the response 1, 2, ..., 7 under
  \<open>'regression'\<close>, \<open>transform_Y\<close> takes 2 to the double nearest \<open>1/6 - 1/2\<close>, and
  \<open>un_transform_Y\<close> takes that to \<open>2 - 2^-52\<close>, which Python prints as
  1.9999999999999998.
\<close>

theorem transform_Y_float64_round_trip_counterexample:
  "BART_init example_seven_args = Inr example_seven_built
   \<and> Y_max example_seven_built \<noteq> Y_min example_seven_built
   \<and> transform_Y_float64 example_seven_built [Some 2] = [Some (- (6004799503160662 / 2 ^ 54))]
   \<and> un_transform_Y_float64 example_seven_built
         (transform_Y_float64 example_seven_built [Some 2]) = [Some (2 - 1 / 2 ^ 52)]
   \<and> Some (2 - 1 / 2 ^ 52) \<noteq> Some (2 :: real)"
proof -
  have f: "transform example_seven_built = Some ''regression''" "Y_min example_seven_built = 1"
    "Y_max example_seven_built = 7" "Y_transf_max_Y_transf_min_half_diff example_seven_built = 1 / 2"
    by (simp_all add: example_seven_built_def)
  have t: "transform_Y_float64 example_seven_built [Some 2] = [Some (- (6004799503160662 / 2 ^ 54))]"
    by (simp add: transform_Y_float64_def f truthy_def round_defs Let_def)
  have u: "un_transform_Y_float64 example_seven_built [Some (- (6004799503160662 / 2 ^ 54))]
      = [Some (2 - 1 / 2 ^ 52)]"
    by (simp add: un_transform_Y_float64_def f truthy_def round_defs Let_def)
  show ?thesis
    using BART_init_seven t u f by simp
qed

subsection \<open>The range of the transformed response\<close>

lemma scaled_unit_in_range:
  fixes q h :: real
  assumes "0 \<le> q" "q \<le> 1" "0 < h"
  shows "- h \<le> q * (h * 2) - h \<and> q * (h * 2) - h \<le> h"
proof -
  have "0 \<le> q * (h * 2)" using assms by simp
  moreover have "q * (h * 2) \<le> 1 * (h * 2)"
    using assms by (intro mult_right_mono) simp_all
  ultimately show ?thesis by simp
qed

lemma min_max_scaled_in_range:
  fixes y mn mx h :: real
  assumes "mn \<le> y" "y \<le> mx" "mn < mx" "0 < h"
  shows "- h \<le> (y - mn) / (mx - mn) * (h * 2) - h \<and> (y - mn) / (mx - mn) * (h * 2) - h \<le> h"
proof (rule scaled_unit_in_range)
  show "0 \<le> (y - mn) / (mx - mn)" using assms by simp
  show "(y - mn) / (mx - mn) \<le> 1" using assms by simp
  show "0 < h" by fact
qed

text \<open>
  Where a transform is set, the range the docstring of \<open>transform_Y\<close> promises is
  obtained. For an engine the constructor has built from the response \<open>Y\<close>: under
  \<open>'regression'\<close> the half range is 0.5, under \<open>'classification'\<close> it is 3.0, and under
  either, when the largest and smallest values of \<open>Y\<close> differ, every element of
  \<open>transform_Y(Y)\<close> is a number within the half range of zero. Without a transform,
  \<open>transform_Y(Y)\<close> is \<open>Y\<close> itself, and the half range is half the width of the range
  of \<open>Y\<close>. \<open>Y_transformed\<close> is \<open>transform_Y(Y)\<close>.
\<close>

theorem transform_Y_within_half_range:
  assumes init: "BaseBART_init a cs = Inr self"
  shows "(transform self = Some ''regression'' \<longrightarrow> Y_transf_max_Y_transf_min_half_diff self = 0.5)
     \<and> (transform self = Some ''classification'' \<longrightarrow> Y_transf_max_Y_transf_min_half_diff self = 3.0)
     \<and> (transform self \<noteq> None \<longrightarrow> Y_max self \<noteq> Y_min self \<longrightarrow>
          (\<forall>v\<in>set (transform_Y self (map Some (self_Y self))).
             \<exists>x. v = Some x \<and> - Y_transf_max_Y_transf_min_half_diff self \<le> x
                  \<and> x \<le> Y_transf_max_Y_transf_min_half_diff self))
     \<and> (transform self = None \<longrightarrow>
          transform_Y self (map Some (self_Y self)) = map Some (self_Y self)
          \<and> Y_transf_max_Y_transf_min_half_diff self = (Y_max self - Y_min self) / 2)
     \<and> Y_transformed self = transform_Y self (map Some (self_Y self))"
proof -
  let ?h = "Y_transf_max_Y_transf_min_half_diff self"
  note F = BaseBART_init_transform [OF init]
  have reg: "transform self = Some ''regression'' \<longrightarrow> ?h = 0.5" using F by simp
  have cls: "transform self = Some ''classification'' \<longrightarrow> ?h = 3.0" using F by simp
  have none: "transform self = None \<longrightarrow>
      transform_Y self (map Some (self_Y self)) = map Some (self_Y self)
      \<and> ?h = (Y_max self - Y_min self) / 2"
    using F by (simp add: transform_Y_def truthy_def)
  have rng: "\<forall>v\<in>set (transform_Y self (map Some (self_Y self))).
      \<exists>x. v = Some x \<and> - ?h \<le> x \<and> x \<le> ?h"
    if tr: "transform self \<noteq> None" and ne: "Y_max self \<noteq> Y_min self"
  proof
    fix v assume v: "v \<in> set (transform_Y self (map Some (self_Y self)))"
    from F tr have t: "truthy (transform self)" and h: "0 < ?h"
      by (auto simp: truthy_def)
    from v t obtain y where y: "y \<in> set (self_Y self)"
      and veq: "v = fsub (fmul (fdiv (fsub (Some y) (Some (Y_min self)))
                  (Some (Y_max self - Y_min self))) (Some (?h * 2))) (Some ?h)"
      by (auto simp: transform_Y_def)
    have fin: "finite (set (self_Y self))" by simp
    from F y have lo: "Y_min self \<le> y" and hi: "y \<le> Y_max self"
      by (simp_all add: Min_le Max_ge)
    from lo hi ne have lt: "Y_min self < Y_max self" by simp
    have "v = Some ((y - Y_min self) / (Y_max self - Y_min self) * (?h * 2) - ?h)"
      using veq lt by (simp add: fsub_def fmul_def fdiv_def lift2_def)
    with min_max_scaled_in_range [OF lo hi lt h] show
      "\<exists>x. v = Some x \<and> - ?h \<le> x \<and> x \<le> ?h" by blast
  qed
  from F have yt: "Y_transformed self = transform_Y self (map Some (self_Y self))" by simp
  from reg cls rng none yt show ?thesis by blast
qed

theorem transform_Y_within_half_range_witness:
  "\<exists>self. BaseBART_init example_regression_args 5000 = Inr self
     \<and> transform self = Some ''regression''
     \<and> Y_max self \<noteq> Y_min self
     \<and> Y_transf_max_Y_transf_min_half_diff self = 0.5
     \<and> Y_transformed self = [Some (- 1 / 2), Some (- 1 / 6), Some (1 / 6), Some (1 / 2)]
     \<and> list_all (\<lambda>v. \<exists>x. v = Some x \<and> - Y_transf_max_Y_transf_min_half_diff self \<le> x
                         \<and> x \<le> Y_transf_max_Y_transf_min_half_diff self)
          (transform_Y self (map Some (self_Y self)))"
proof -
  from BaseBART_init_regression_example obtain self where
    init: "BaseBART_init example_regression_args 5000 = Inr self" by blast
  note F = BaseBART_init_transform [OF init]
  from F have Y: "self_Y self = [1, 2, 3, 4]"
    by (simp add: example_regression_args_def example_args_def)
  from F have T: "transform self = Some ''regression''"
    by (simp add: example_regression_args_def example_args_def)
  from F Y T have f: "Y_min self = 1" "Y_max self = 4"
      "Y_transf_max_Y_transf_min_half_diff self = 1 / 2"
    by simp_all
  have ne: "Y_max self \<noteq> Y_min self" using f by simp
  have tn: "transform self \<noteq> None" using T by simp
  have ev: "transform_Y self (map Some (self_Y self)) =
      [Some (- 1 / 2), Some (- 1 / 6), Some (1 / 6), Some (1 / 2)]"
    using f T Y by (simp add: transform_Y_def truthy_def fsub_def fmul_def fdiv_def lift2_def)
  note W = transform_Y_within_half_range [OF init]
  have r: "list_all (\<lambda>v. \<exists>x. v = Some x \<and> - Y_transf_max_Y_transf_min_half_diff self \<le> x
                         \<and> x \<le> Y_transf_max_Y_transf_min_half_diff self)
          (transform_Y self (map Some (self_Y self)))"
    using W tn ne unfolding list_all_iff by blast
  have yt: "Y_transformed self = [Some (- 1 / 2), Some (- 1 / 6), Some (1 / 6), Some (1 / 2)]"
    using W ev by simp
  have h: "Y_transf_max_Y_transf_min_half_diff self = 0.5" using f by simp
  from init T ne h yt r show ?thesis by blast
qed

text \<open>
  Claim C3. The docstring of \<open>transform_Y\<close> says that the obtained range of \<open>Y\<close> is
  the half range on either side of zero. Without a transform the method returns its
  argument: for the response 1, 2, 3, 4 the half range the constructor stores is 3/2,
  and \<open>transform_Y(Y)\<close> is 1, 2, 3, 4, with 4 above 3/2.
\<close>

theorem transform_Y_none_out_of_range:
  "BART_init example_args = Inr example_built
   \<and> transform example_built = None
   \<and> self_Y example_built = [1, 2, 3, 4]
   \<and> Y_transf_max_Y_transf_min_half_diff example_built = 3 / 2
   \<and> transform_Y example_built (map Some (self_Y example_built)) = [Some 1, Some 2, Some 3, Some 4]
   \<and> \<not> (4 \<le> Y_transf_max_Y_transf_min_half_diff example_built)"
  by (simp add: BART_init_example) (simp add: example_built_def transform_Y_def truthy_def)

text \<open>
  With a transform and a constant response the division is by zero: no element of the
  result is a number.
\<close>

lemma transform_Y_constant_response:
  "truthy (transform self) \<Longrightarrow> Y_max self = Y_min self \<Longrightarrow>
     transform_Y self (map Some ys) = map (\<lambda>y. None) ys"
  by (simp add: transform_Y_def fsub_def fmul_def fdiv_def lift2_def)

subsection \<open>The discrete uniform sampler\<close>

text \<open>
  Claim C5. \<open>sample\<close> converts with \<open>int\<close>, which truncates towards zero, where the
  claim and the docstring of the class ("includes low, but excludes high") ask for the
  floor. For \<open>lower = -1\<close>, \<open>upper = 0\<close> and the cached base uniform 1/2 the code returns
  0, which is \<open>upper\<close>; the floor is \<open>-1\<close>. For \<open>0 <= lower < upper\<close> the two agree and
  the result is in \<open>[lower, upper)\<close>: \<open>uniform_sample_nonnegative_lower\<close> below.
\<close>

theorem uniform_sample_negative_lower:
  "uniform_sample \<lparr>cache_size = 1, cache = [1 / 2]\<rparr> example_rng (- 1) 0 =
     (Inr 0, \<lparr>cache_size = 1, cache = []\<rparr>, example_rng)
   \<and> \<lfloor>real_of_int (- 1) + real_of_int (0 - (- 1)) * (1 / 2)\<rfloor> = (- 1 :: int)"
  by (simp add: uniform_sample_def py_pop_def py_int_def ceiling_def)

lemma uniform_sample_nonnegative_lower:
  assumes "cache s \<noteq> []" and "0 \<le> last (cache s)" and "last (cache s) < 1"
    and "0 \<le> lower" and "lower < upper"
  shows "\<exists>i. uniform_sample s r lower upper = (Inr i, s\<lparr>cache := butlast (cache s)\<rparr>, r)
     \<and> i = \<lfloor>real_of_int lower + real_of_int (upper - lower) * last (cache s)\<rfloor>
     \<and> lower \<le> i \<and> i < upper"
proof -
  let ?u = "last (cache s)"
  let ?x = "real_of_int lower + real_of_int (upper - lower) * ?u"
  define d where "d = real_of_int (upper - lower)"
  have d: "0 < d" using assms by (simp add: d_def)
  have x: "?x = real_of_int lower + d * ?u" by (simp add: d_def)
  have up: "real_of_int upper = real_of_int lower + d" by (simp add: d_def)
  have "0 \<le> d * ?u" using d assms by simp
  then have lo: "real_of_int lower \<le> ?x" unfolding x by simp
  have "d * ?u < d * 1"
    using d assms by (intro mult_strict_left_mono) simp_all
  then have hi: "?x < real_of_int upper" unfolding x up by simp
  from lo assms have nn: "0 \<le> ?x" by linarith
  have f1: "lower \<le> \<lfloor>?x\<rfloor>" using lo by (rule le_floor_iff [THEN iffD2])
  have f2: "\<lfloor>?x\<rfloor> < upper" using hi by (rule floor_less_iff [THEN iffD2])
  have pi: "py_int ?x = \<lfloor>?x\<rfloor>" using nn by (simp only: py_int_def if_True)
  have eq: "uniform_sample s r lower upper =
      (Inr (py_int ?x), s\<lparr>cache := butlast (cache s)\<rparr>, r)"
    using assms(1) by (simp add: uniform_sample_def py_pop_def)
  show ?thesis unfolding eq pi using f1 f2 by blast
qed

subsection \<open>Constructor failures\<close>

lemma BaseBART_build_Inl:
  "BaseBART_build Xm Yv m alpha beta ts tr cs = Inl f \<Longrightarrow> f = (ValueError, [], []) \<and> Yv = []"
  by (auto simp: BaseBART_build_def Let_def split: if_splits)

lemma BaseBART_check_params_Inl:
  "BaseBART_check_params a Xm Yv cs = Inl f \<Longrightarrow> snd f = ([], [])"
  by (auto simp: BaseBART_check_params_def split: option.splits if_splits
      dest!: BaseBART_build_Inl)

lemma BaseBART_init_Inl:
  "BaseBART_init a cs = Inl f \<Longrightarrow> snd f = ([], [])"
  by (auto simp: BaseBART_init_def
      split: if_splits pyarray.splits dtype.splits ndarray.splits
      dest!: BaseBART_check_params_Inl)

lemma BaseBART_check_params_violation:
  assumes "arg_alpha a \<noteq> PyNaN" and "arg_beta a \<noteq> PyNaN"
    and "\<not> ((case isinstance_int (arg_m a) of Some m \<Rightarrow> 1 \<le> m | None \<Rightarrow> False)
      \<and> (case arg_alpha a of PyFloat x \<Rightarrow> 0 < x \<and> x < 1 | v \<Rightarrow> False)
      \<and> (case arg_beta a of PyFloat x \<Rightarrow> 0 \<le> x | v \<Rightarrow> False)
      \<and> (arg_tree_sampler a = PyStr ''GrowPrune'' \<or> arg_tree_sampler a = PyStr ''ParticleGibbs'')
      \<and> (arg_transform a = PyNone \<or> arg_transform a = PyStr ''regression''
           \<or> arg_transform a = PyStr ''classification''))"
  shows "BaseBART_check_params a Xm Yv cs = Inl (BARTParamsError, [], [])"
proof (cases "isinstance_int (arg_m a)")
  case None
  then show ?thesis by (simp add: BaseBART_check_params_def)
next
  case (Some m)
  show ?thesis
  proof (cases "m < 1")
    case True
    with Some show ?thesis by (simp add: BaseBART_check_params_def)
  next
    case m: False
    show ?thesis
    proof (cases "arg_alpha a")
      case (PyFloat x)
      show ?thesis
      proof (cases "arg_beta a")
        case beta: (PyFloat y)
        from assms(3) Some m PyFloat beta show ?thesis
          by (auto simp: BaseBART_check_params_def fle_def flt_def not_less not_le)
      qed (use assms(2) Some m PyFloat in
          \<open>auto simp: BaseBART_check_params_def fle_def flt_def\<close>)
    qed (use assms(1) Some m in \<open>auto simp: BaseBART_check_params_def\<close>)
  qed
qed

lemma BaseBART_init_violation:
  assumes ctx: "model_on_context a" and "arg_alpha a \<noteq> PyNaN" and "arg_beta a \<noteq> PyNaN"
    and viol: "\<not> base_rules_hold a"
  shows "BaseBART_init a cs = Inl (BARTParamsError, [], [])"
proof (cases "\<exists>Xm Yv. arg_X a = Ndarray Float64 (Array2 Xm)
    \<and> arg_Y a = Ndarray Float64 (Array1 Yv) \<and> shape0 Xm = length Yv")
  case False
  with ctx show ?thesis
    by (auto simp: BaseBART_init_def split: pyarray.splits dtype.splits ndarray.splits)
next
  case True
  then obtain Xm Yv where A: "arg_X a = Ndarray Float64 (Array2 Xm)"
    "arg_Y a = Ndarray Float64 (Array1 Yv)" "shape0 Xm = length Yv" by blast
  from viol A have "\<not> ((case isinstance_int (arg_m a) of Some m \<Rightarrow> 1 \<le> m | None \<Rightarrow> False)
      \<and> (case arg_alpha a of PyFloat x \<Rightarrow> 0 < x \<and> x < 1 | v \<Rightarrow> False)
      \<and> (case arg_beta a of PyFloat x \<Rightarrow> 0 \<le> x | v \<Rightarrow> False)
      \<and> (arg_tree_sampler a = PyStr ''GrowPrune'' \<or> arg_tree_sampler a = PyStr ''ParticleGibbs'')
      \<and> (arg_transform a = PyNone \<or> arg_transform a = PyStr ''regression''
           \<or> arg_transform a = PyStr ''classification''))"
    by (simp add: base_rules_hold_def)
  from BaseBART_check_params_violation [OF assms(2,3) this, of Xm Yv cs] ctx A
  show ?thesis by (simp add: BaseBART_init_def)
qed

lemma float64_array2_cases:
  "(\<exists>Xm. x = Ndarray Float64 (Array2 Xm)) \<or>
   (case x of Ndarray Float64 (Array2 Xm) \<Rightarrow> False | v \<Rightarrow> True)"
proof (cases x)
  case NotNdarray
  then show ?thesis by simp
next
  case (Ndarray d arr)
  then show ?thesis by (cases d; cases arr) simp_all
qed

lemma float64_array1_cases:
  "(\<exists>Yv. y = Ndarray Float64 (Array1 Yv)) \<or>
   (case y of Ndarray Float64 (Array1 Yv) \<Rightarrow> False | v \<Rightarrow> True)"
proof (cases y)
  case NotNdarray
  then show ?thesis by simp
next
  case (Ndarray d arr)
  then show ?thesis by (cases d; cases arr) simp_all
qed

lemma base_rules_arrays:
  assumes "base_rules_hold a"
  shows "\<exists>Xm Yv. arg_X a = Ndarray Float64 (Array2 Xm)
    \<and> arg_Y a = Ndarray Float64 (Array1 Yv) \<and> shape0 Xm = length Yv"
proof -
  from assms have X: "case arg_X a of
         Ndarray Float64 (Array2 Xm) \<Rightarrow>
           (case arg_Y a of Ndarray Float64 (Array1 Yv) \<Rightarrow> shape0 Xm = length Yv | v \<Rightarrow> False)
       | v \<Rightarrow> False"
    by (simp add: base_rules_hold_def)
  from float64_array2_cases [of "arg_X a"] X obtain Xm where
    Xm: "arg_X a = Ndarray Float64 (Array2 Xm)"
    by (cases "arg_X a") (auto split: dtype.splits ndarray.splits)
  from X Xm have Y: "case arg_Y a of Ndarray Float64 (Array1 Yv) \<Rightarrow> shape0 Xm = length Yv
      | v \<Rightarrow> False" by simp
  from float64_array1_cases [of "arg_Y a"] Y obtain Yv where
    Yv: "arg_Y a = Ndarray Float64 (Array1 Yv)"
    by (cases "arg_Y a") (auto split: dtype.splits ndarray.splits)
  from Y Yv Xm show ?thesis by simp
qed

lemma BaseBART_init_valid:
  assumes ctx: "model_on_context a" and ok: "base_rules_hold a"
    and ne: "arg_Y a \<noteq> Ndarray Float64 (Array1 [])"
  shows "\<exists>self m. BaseBART_init a cs = Inr self \<and> isinstance_int (arg_m a) = Some m
     \<and> length (trees self) = nat m \<and> 1 \<le> m
     \<and> normal_distribution_sampler self = new_sampler cs
     \<and> discrete_uniform_distribution_sampler self = new_sampler cs"
proof -
  from base_rules_arrays [OF ok] obtain Xm Yv where A: "arg_X a = Ndarray Float64 (Array2 Xm)"
    "arg_Y a = Ndarray Float64 (Array1 Yv)" "shape0 Xm = length Yv" by blast
  from ok obtain m where m: "isinstance_int (arg_m a) = Some m" "1 \<le> m"
    by (auto simp: base_rules_hold_def split: option.splits)
  from ok obtain x where x: "arg_alpha a = PyFloat x" "0 < x" "x < 1"
    by (auto simp: base_rules_hold_def split: pyval.splits)
  from ok obtain y where y: "arg_beta a = PyFloat y" "0 \<le> y"
    by (auto simp: base_rules_hold_def split: pyval.splits)
  from ok have ts: "arg_tree_sampler a = PyStr ''GrowPrune'' \<or> arg_tree_sampler a = PyStr ''ParticleGibbs''"
    and tr: "arg_transform a = PyNone \<or> arg_transform a = PyStr ''regression''
           \<or> arg_transform a = PyStr ''classification''"
    by (simp_all add: base_rules_hold_def)
  from ne A have Yne: "Yv \<noteq> []" by auto
  have "\<exists>self. BaseBART_build Xm Yv m (Some x) (Some y)
      (case arg_tree_sampler a of PyStr s \<Rightarrow> s | v \<Rightarrow> [])
      (case arg_transform a of PyStr s \<Rightarrow> Some s | v \<Rightarrow> None) cs = Inr self"
    using Yne by (simp add: BaseBART_build_def Let_def)
  then obtain self where b: "BaseBART_build Xm Yv m (Some x) (Some y)
      (case arg_tree_sampler a of PyStr s \<Rightarrow> s | v \<Rightarrow> [])
      (case arg_transform a of PyStr s \<Rightarrow> Some s | v \<Rightarrow> None) cs = Inr self" by blast
  have c: "BaseBART_check_params a Xm Yv cs = Inr self"
    using m x y ts tr b by (auto simp: BaseBART_check_params_def fle_def flt_def)
  have i: "BaseBART_init a cs = Inr self"
    using ctx A c by (simp add: BaseBART_init_def)
  from BaseBART_build_fields [OF b] i m show ?thesis by auto
qed

lemma ConjugateBART_init_violation:
  assumes base: "BaseBART_init a 5000 = Inr self"
    and "arg_nu a \<noteq> PyNaN" and "arg_q a \<noteq> PyNaN" and "arg_k a \<noteq> PyNaN"
    and viol: "\<not> conjugate_rules_hold a"
  shows "ConjugateBART_init chi2_ppf a =
     Inl (BARTParamsError, trees self,
          [normal_distribution_sampler self, discrete_uniform_distribution_sampler self])"
proof (cases "arg_nu a")
  case nu: (PyFloat x)
  show ?thesis
  proof (cases "arg_q a")
    case q: (PyFloat y)
    show ?thesis
    proof (cases "arg_k a")
      case k: (PyFloat z)
      from viol nu q k show ?thesis
        by (auto simp: ConjugateBART_init_def base conjugate_rules_hold_def fle_def flt_def
            Let_def not_less not_le)
    qed (use assms(4) nu q in
        \<open>auto simp: ConjugateBART_init_def base fle_def flt_def Let_def\<close>)
  qed (use assms(3) nu in \<open>auto simp: ConjugateBART_init_def base fle_def flt_def Let_def\<close>)
qed (use assms(2) in \<open>auto simp: ConjugateBART_init_def base Let_def\<close>)

text \<open>
  Claim C4, amended. Let a model be on the context stack and no float argument be nan.
  If the arguments break a rule of the base constructor, \<open>BaseBART.__init__\<close> (and
  with it \<open>BART\<close> and \<open>ConjugateBART\<close>) raises a parameter error with no tree and no
  sampler cache allocated. If they satisfy these rules, \<open>Y\<close> is not empty, and they
  break a rule of \<open>nu\<close>, \<open>q\<close> or \<open>k\<close>, \<open>ConjugateBART.__init__\<close> raises a parameter
  error too, but after the base constructor has run: the \<open>m\<close> trees and the two sampler
  caches are then allocated on the object that is given up. No engine is returned in
  either case.
\<close>

theorem constructor_parameter_errors:
  assumes ctx: "model_on_context a"
    and nonan: "arg_alpha a \<noteq> PyNaN" "arg_beta a \<noteq> PyNaN"
      "arg_nu a \<noteq> PyNaN" "arg_q a \<noteq> PyNaN" "arg_k a \<noteq> PyNaN"
  shows "(\<not> base_rules_hold a \<longrightarrow>
            BaseBART_init a cs = Inl (BARTParamsError, [], [])
            \<and> ConjugateBART_init chi2_ppf a = Inl (BARTParamsError, [], []))
     \<and> (base_rules_hold a \<longrightarrow> \<not> conjugate_rules_hold a \<longrightarrow>
          arg_Y a \<noteq> Ndarray Float64 (Array1 []) \<longrightarrow>
            (\<exists>self m. BaseBART_init a 5000 = Inr self
               \<and> isinstance_int (arg_m a) = Some m \<and> 1 \<le> m \<and> length (trees self) = nat m
               \<and> ConjugateBART_init chi2_ppf a =
                   Inl (BARTParamsError, trees self,
                        [normal_distribution_sampler self,
                         discrete_uniform_distribution_sampler self])))"
proof (intro conjI impI)
  assume v: "\<not> base_rules_hold a"
  show "BaseBART_init a cs = Inl (BARTParamsError, [], [])"
    by (rule BaseBART_init_violation [OF ctx nonan(1,2) v])
  have "BaseBART_init a 5000 = Inl (BARTParamsError, [], [])"
    by (rule BaseBART_init_violation [OF ctx nonan(1,2) v])
  then show "ConjugateBART_init chi2_ppf a = Inl (BARTParamsError, [], [])"
    by (simp add: ConjugateBART_init_def)
next
  assume ok: "base_rules_hold a" and v: "\<not> conjugate_rules_hold a"
    and ne: "arg_Y a \<noteq> Ndarray Float64 (Array1 [])"
  from BaseBART_init_valid [OF ctx ok ne, of 5000] obtain self m where
    b: "BaseBART_init a 5000 = Inr self" and m: "isinstance_int (arg_m a) = Some m" "1 \<le> m"
      "length (trees self) = nat m" by blast
  from ConjugateBART_init_violation [OF b nonan(3,4,5) v, of chi2_ppf] b m
  show "\<exists>self m. BaseBART_init a 5000 = Inr self
               \<and> isinstance_int (arg_m a) = Some m \<and> 1 \<le> m \<and> length (trees self) = nat m
               \<and> ConjugateBART_init chi2_ppf a =
                   Inl (BARTParamsError, trees self,
                        [normal_distribution_sampler self,
                         discrete_uniform_distribution_sampler self])"
    by blast
qed

lemma BaseBART_init_bad_nu_example: "BaseBART_init example_bad_nu_args 5000 = Inr example_built"
proof -
  have u: "[0..<4] = [0, 1, 2, 3::nat]" by (simp add: upt_rec)
  show ?thesis
    by (simp add: BaseBART_init_def BaseBART_check_params_def BaseBART_build_def
        example_bad_nu_args_def example_conjugate_args_def example_built_def example_X_def
        example_rows_def fle_def flt_def
        transform_Y_def truthy_def new_sampler_def np_mean_def np_sum_def np_std_def np_var_def
        fdiv_def fadd_def fsub_def fmul_def fsqrt_def lift2_def init_tree_def u Let_def)
qed

text \<open>
  Claim C4 as stated fails for \<open>nu = 2.0\<close>: the parameter error leaves the constructor
  when one tree and both sampler caches exist.
\<close>

theorem conjugate_violation_counterexample:
  "\<not> conjugate_rules_hold example_bad_nu_args
   \<and> ConjugateBART_init unknown_chi2_ppf example_bad_nu_args =
       Inl (BARTParamsError, [init_tree (Some (5 / 2)) example_rows],
            [\<lparr>cache_size = 5000, cache = []\<rparr>, \<lparr>cache_size = 5000, cache = []\<rparr>])"
  by (simp add: ConjugateBART_init_def BaseBART_init_bad_nu_example conjugate_rules_hold_def
      flt_def Let_def)
    (simp add: example_bad_nu_args_def example_conjugate_args_def example_built_def
      flt_def fle_def)

theorem constructor_parameter_errors_witness:
  "model_on_context example_bad_nu_args
   \<and> arg_alpha example_bad_nu_args \<noteq> PyNaN \<and> arg_beta example_bad_nu_args \<noteq> PyNaN
   \<and> arg_nu example_bad_nu_args \<noteq> PyNaN \<and> arg_q example_bad_nu_args \<noteq> PyNaN
   \<and> arg_k example_bad_nu_args \<noteq> PyNaN
   \<and> base_rules_hold example_bad_nu_args \<and> \<not> conjugate_rules_hold example_bad_nu_args
   \<and> arg_Y example_bad_nu_args \<noteq> Ndarray Float64 (Array1 [])
   \<and> (\<exists>self. BaseBART_init example_bad_nu_args 5000 = Inr self
         \<and> length (trees self) = 1
         \<and> ConjugateBART_init unknown_chi2_ppf example_bad_nu_args =
             Inl (BARTParamsError, trees self,
                  [normal_distribution_sampler self, discrete_uniform_distribution_sampler self]))
   \<and> \<not> base_rules_hold (example_bad_nu_args\<lparr>arg_m := PyInt 0\<rparr>)
   \<and> BaseBART_init (example_bad_nu_args\<lparr>arg_m := PyInt 0\<rparr>) 5000 = Inl (BARTParamsError, [], [])"
proof -
  let ?a = example_bad_nu_args
  let ?b = "example_bad_nu_args\<lparr>arg_m := PyInt 0\<rparr>"
  have ctx: "model_on_context ?a" "model_on_context ?b"
    by (simp_all add: example_bad_nu_args_def example_conjugate_args_def)
  have nonan: "arg_alpha ?a \<noteq> PyNaN" "arg_beta ?a \<noteq> PyNaN" "arg_nu ?a \<noteq> PyNaN"
      "arg_q ?a \<noteq> PyNaN" "arg_k ?a \<noteq> PyNaN"
    by (simp_all add: example_bad_nu_args_def example_conjugate_args_def)
  have nonan': "arg_alpha ?b \<noteq> PyNaN" "arg_beta ?b \<noteq> PyNaN" "arg_nu ?b \<noteq> PyNaN"
      "arg_q ?b \<noteq> PyNaN" "arg_k ?b \<noteq> PyNaN"
    by (simp_all add: example_bad_nu_args_def example_conjugate_args_def)
  have ok: "base_rules_hold ?a"
    by (simp add: base_rules_hold_def example_bad_nu_args_def example_conjugate_args_def
        example_X_def)
  have v: "\<not> conjugate_rules_hold ?a"
    by (simp add: conjugate_rules_hold_def example_bad_nu_args_def example_conjugate_args_def)
  have ne: "arg_Y ?a \<noteq> Ndarray Float64 (Array1 [])"
    by (simp add: example_bad_nu_args_def example_conjugate_args_def)
  have v': "\<not> base_rules_hold ?b"
    by (simp add: base_rules_hold_def example_bad_nu_args_def example_conjugate_args_def)
  note T = constructor_parameter_errors [OF ctx(1) nonan, of 5000 unknown_chi2_ppf]
  note T' = constructor_parameter_errors [OF ctx(2) nonan', of 5000 unknown_chi2_ppf]
  from T ok v ne have A: "\<exists>self. BaseBART_init ?a 5000 = Inr self
         \<and> length (trees self) = 1
         \<and> ConjugateBART_init unknown_chi2_ppf ?a =
             Inl (BARTParamsError, trees self,
                  [normal_distribution_sampler self, discrete_uniform_distribution_sampler self])"
    by (auto simp: example_bad_nu_args_def example_conjugate_args_def)
  from T' v' have B: "BaseBART_init ?b 5000 = Inl (BARTParamsError, [], [])" by blast
  from ctx(1) nonan ok v ne A v' B show ?thesis by blast
qed

subsection \<open>The conjugate leaf draw\<close>

lemma BaseBART_init_m:
  assumes "BaseBART_init a cs = Inr self"
  shows "1 \<le> self_m self"
proof -
  from BaseBART_init_Inr [OF assms] obtain Xm Yv where
    c: "BaseBART_check_params a Xm Yv cs = Inr self" by blast
  from BaseBART_check_params_Inr [OF c] obtain m alpha beta ts tr where
    b: "BaseBART_build Xm Yv m alpha beta ts tr cs = Inr self" and m: "1 \<le> m" by blast
  from BaseBART_build_fields [OF b] m show ?thesis by simp
qed

lemma ConjugateBART_init_Inr:
  assumes "ConjugateBART_init chi2_ppf a = Inr s0"
  shows "1 \<le> self_m s0
     \<and> prior_sigma_mu s0 =
          fdiv (Some (Y_transf_max_Y_transf_min_half_diff s0))
            (fmul (prior_k s0) (Some (sqrt (real_of_int (self_m s0)))))
     \<and> (\<forall>k. prior_k s0 = Some k \<longrightarrow> 0 < k)
     \<and> current_sigma s0 = 1 \<and> prior_mu_mu s0 = 0"
proof -
  from assms obtain base where base: "BaseBART_init a 5000 = Inr base"
    by (cases "BaseBART_init a 5000") (simp_all add: ConjugateBART_init_def)
  note m = BaseBART_init_m [OF base]
  from assms base m show ?thesis
    by (auto simp: ConjugateBART_init_def Let_def BaseBART.defs ConjugateBART.defs fle_def
        split: option.splits if_splits)
qed

lemma np_sum_real: "fold (\<lambda>x acc. fadd acc x) (map Some rs) (Some a) = Some (a + sum_list rs)"
  by (induction rs arbitrary: a) (simp_all add: fadd_def lift2_def add.assoc)

text \<open>
  Claim C9. Take a conjugate engine as its constructor built it, in any later state
  that keeps \<open>prior_sigma_mu\<close> and \<open>m\<close>, with a real \<open>k\<close>, a half range and a
  \<open>current_sigma\<close> other than zero. For non-empty rows whose residuals are real numbers
  \<open>rs\<close>, and the standard normal \<open>z\<close> the sampler serves, \<open>draw_leaf_value\<close> returns the
  value of the specification's formula, \<open>conjugate_posterior_draw\<close>, with the prior
  standard deviation \<open>half_range / (k sqrt m)\<close> and the division of the posterior
  variance by \<open>m\<close>, and takes \<open>z\<close> off the cache.
\<close>

theorem ConjugateBART_draw_leaf_value_formula:
  assumes init: "ConjugateBART_init chi2_ppf a = Inr s0"
    and same: "prior_sigma_mu self = prior_sigma_mu s0" "self_m self = self_m s0"
    and k: "prior_k s0 = Some k"
    and half: "Y_transf_max_Y_transf_min_half_diff s0 \<noteq> 0"
    and sigma: "current_sigma self \<noteq> 0"
    and ne: "idx \<noteq> []"
    and res: "get_residuals predict_output self t = Inr R"
    and inr: "\<forall>i\<in>set idx. i < length R"
    and real: "map (\<lambda>i. R ! i) idx = map Some rs"
    and z: "normal_sample (normal_distribution_sampler self) r = (Inr z, ns, r')"
  shows "ConjugateBART_draw_leaf_value predict_output self r t idx =
     (Inr (Some (conjugate_posterior_draw (Y_transf_max_Y_transf_min_half_diff s0) k (self_m s0)
                   (current_sigma self) rs z)),
      self\<lparr>normal_distribution_sampler := ns\<rparr>, r')"
proof -
  let ?h = "Y_transf_max_Y_transf_min_half_diff s0"
  let ?m = "real_of_int (self_m s0)"
  let ?n = "real (length idx)"
  note I = ConjugateBART_init_Inr [OF init]
  from I have m: "0 < ?m" by simp
  from I k have kpos: "0 < k" by simp
  define psm where "psm = ?h / (k * sqrt ?m)"
  have psm: "prior_sigma_mu self = Some psm"
    using I k kpos m same by (simp add: psm_def fdiv_def fmul_def lift2_def)
  have psm0: "psm \<noteq> 0" using half kpos m by (simp add: psm_def)
  define pv where "pv = psm\<^sup>2"
  have pv: "0 < pv" using psm0 by (simp add: pv_def)
  have len: "length rs = length idx" using real by (metis length_map)
  have n: "0 < ?n" using ne by simp
  define lv where "lv = (current_sigma self)\<^sup>2 / ?n"
  have lv: "0 < lv" using sigma n by (simp add: lv_def)
  have tk: "np_take R idx = Inr (map Some rs)"
    using inr real by (simp add: np_take_def list_all_iff)
  have sm: "np_sum (map Some rs) = Some (sum_list rs)"
    using np_sum_real [of rs 0] by (simp add: np_sum_def)
  define lm where "lm = sum_list rs / ?n"
  define postv where "postv = 1 / (1 / pv + 1 / lv)"
  have den: "1 / pv + 1 / lv \<noteq> 0" using pv lv by (simp add: add_pos_pos less_imp_neq [THEN not_sym])
  have postv: "0 < postv" using pv lv by (simp add: postv_def add_pos_pos)
  have sum0: "lv + pv \<noteq> 0" using pv lv by simp
  have nonneg: "\<not> postv / ?m < 0" using postv m by (simp add: not_less)
  have "ConjugateBART_draw_leaf_value predict_output self r t idx =
     (Inr (Some (lm * (pv / (lv + pv)) + z * sqrt (postv / ?m))),
      self\<lparr>normal_distribution_sampler := ns\<rparr>, r')"
    unfolding ConjugateBART_draw_leaf_value_def Let_def
    using ne sigma n den sum0 nonneg psm0 m pv lv
    by (simp add: res tk z psm sm same fdiv_def fmul_def fadd_def fsqrt_def lift2_def
        lv_def [symmetric] pv_def [symmetric] power2_eq_square [symmetric] lm_def postv_def)
  moreover have "conjugate_posterior_draw ?h k (self_m s0) (current_sigma self) rs z =
      lm * (pv / (lv + pv)) + z * sqrt (postv / ?m)"
    by (simp add: conjugate_posterior_draw_def Let_def len psm_def [symmetric] pv_def [symmetric]
        lv_def [symmetric] lm_def postv_def)
  ultimately show ?thesis by simp
qed

lemma ConjugateBART_init_base:
  assumes "ConjugateBART_init chi2_ppf a = Inr s0"
  shows "\<exists>base. BaseBART_init a 5000 = Inr base
     \<and> sum_trees_output s0 = sum_trees_output base
     \<and> num_observations s0 = num_observations base
     \<and> Y_transf_max_Y_transf_min_half_diff s0 = Y_transf_max_Y_transf_min_half_diff base
     \<and> self_m s0 = self_m base
     \<and> isinstance_float (arg_k a) = Some (prior_k s0)"
proof -
  from assms obtain base where base: "BaseBART_init a 5000 = Inr base"
    by (cases "BaseBART_init a 5000") (simp_all add: ConjugateBART_init_def)
  from assms base show ?thesis
    by (auto simp: ConjugateBART_init_def Let_def BaseBART.defs ConjugateBART.defs
        split: option.splits if_splits)
qed

lemma BaseBART_init_conjugate_example:
  "BaseBART_init example_conjugate_args 5000 = Inr example_built"
proof -
  have u: "[0..<4] = [0, 1, 2, 3::nat]" by (simp add: upt_rec)
  show ?thesis
    by (simp add: BaseBART_init_def BaseBART_check_params_def BaseBART_build_def
        example_conjugate_args_def example_built_def example_X_def
        example_rows_def fle_def flt_def
        transform_Y_def truthy_def new_sampler_def np_mean_def np_sum_def np_std_def np_var_def
        fdiv_def fadd_def fsub_def fmul_def fsqrt_def lift2_def init_tree_def u Let_def)
qed

lemma ConjugateBART_init_example:
  "\<exists>s0. ConjugateBART_init unknown_chi2_ppf example_conjugate_args = Inr s0"
  by (simp add: ConjugateBART_init_def BaseBART_init_conjugate_example Let_def)
    (simp add: example_conjugate_args_def fle_def flt_def)

theorem ConjugateBART_draw_leaf_value_formula_witness:
  "\<exists>s0. ConjugateBART_init unknown_chi2_ppf example_conjugate_args = Inr s0
     \<and> prior_k s0 = Some 2
     \<and> Y_transf_max_Y_transf_min_half_diff s0 = 3 / 2
     \<and> current_sigma s0 = 1
     \<and> get_residuals example_predict_output
          (s0\<lparr>normal_distribution_sampler := \<lparr>cache_size = 5000, cache = [0, 1]\<rparr>\<rparr>) example_tree
          = Inr [Some (- (5 / 2)), Some (- (5 / 2)), Some (- (5 / 2)), Some (- (5 / 2))]
     \<and> ConjugateBART_draw_leaf_value example_predict_output
          (s0\<lparr>normal_distribution_sampler := \<lparr>cache_size = 5000, cache = [0, 1]\<rparr>\<rparr>)
          example_rng example_tree [0, 1] =
        (Inr (Some (conjugate_posterior_draw (3 / 2) 2 1 1 [- (5 / 2), - (5 / 2)] 1)),
         s0\<lparr>normal_distribution_sampler := \<lparr>cache_size = 5000, cache = [0]\<rparr>\<rparr>, example_rng)"
proof -
  from ConjugateBART_init_example obtain s0 where
    init: "ConjugateBART_init unknown_chi2_ppf example_conjugate_args = Inr s0" by blast
  let ?self = "s0\<lparr>normal_distribution_sampler := \<lparr>cache_size = 5000, cache = [0, 1]\<rparr>\<rparr>"
  from ConjugateBART_init_base [OF init] have B:
    "sum_trees_output s0 = sum_trees_output example_built
     \<and> num_observations s0 = num_observations example_built
     \<and> Y_transf_max_Y_transf_min_half_diff s0 = Y_transf_max_Y_transf_min_half_diff example_built
     \<and> self_m s0 = self_m example_built
     \<and> isinstance_float (arg_k example_conjugate_args) = Some (prior_k s0)"
    by (simp add: BaseBART_init_conjugate_example)
  from B have sto: "sum_trees_output s0 = [Some 0, Some 0, Some 0, Some 0]"
    and n: "num_observations s0 = 4"
    and h: "Y_transf_max_Y_transf_min_half_diff s0 = 3 / 2"
    and m: "self_m s0 = 1"
    by (simp_all add: example_built_def)
  from B have k: "prior_k s0 = Some 2"
    by (simp add: example_conjugate_args_def)
  from ConjugateBART_init_Inr [OF init] have sg: "current_sigma s0 = 1" by simp
  have same: "prior_sigma_mu ?self = prior_sigma_mu s0" "self_m ?self = self_m s0" by simp_all
  have half: "Y_transf_max_Y_transf_min_half_diff s0 \<noteq> 0" using h by simp
  have sigma: "current_sigma ?self \<noteq> 0" using sg by simp
  have ne: "[0, 1::nat] \<noteq> []" by simp
  let ?R = "[Some (- (5 / 2)), Some (- (5 / 2)), Some (- (5 / 2)), Some (- (5 / 2))] :: float64 list"
  have rep: "replicate 4 (Some (5 / 2) :: float64) =
      [Some (5 / 2), Some (5 / 2), Some (5 / 2), Some (5 / 2)]"
    by (simp add: eval_nat_numeral)
  have res: "get_residuals example_predict_output ?self example_tree = Inr ?R"
    by (simp add: get_residuals_def np_subtract_def sto n example_predict_output_def fsub_def
        lift2_def rep)
  have inr: "\<forall>i\<in>set [0, 1::nat]. i < length ?R" by simp
  have real: "map (\<lambda>i. ?R ! i) [0, 1::nat] = map Some [- (5 / 2), - (5 / 2)]" by simp
  have z: "normal_sample (normal_distribution_sampler ?self) example_rng =
      (Inr 1, \<lparr>cache_size = 5000, cache = [0]\<rparr>, example_rng)"
    by (simp add: normal_sample_def py_pop_def)
  note T = ConjugateBART_draw_leaf_value_formula
    [where predict_output = example_predict_output and t = example_tree and self = ?self
      and idx = "[0, 1]" and rs = "[- (5 / 2), - (5 / 2)]" and r = example_rng,
      OF init same k half sigma ne res inr real z]
  have "ConjugateBART_draw_leaf_value example_predict_output ?self example_rng example_tree [0, 1] =
        (Inr (Some (conjugate_posterior_draw (3 / 2) 2 1 1 [- (5 / 2), - (5 / 2)] 1)),
         s0\<lparr>normal_distribution_sampler := \<lparr>cache_size = 5000, cache = [0]\<rparr>\<rparr>, example_rng)"
    using T by (simp add: h m sg)
  with init k h sg res show ?thesis by blast
qed

end
